theory Spec2Isabelle
  imports Main "HOL-Library.Word"
begin

section \<open>Values exchanged with the Python caller\<close>

text \<open>
  The module \<^verbatim>\<open>pyhmmer/daemon.pyx\<close> implements the client side of the HMMER daemon
  protocol. Bytes are 8-bit words. Text that the client renders itself (the request line)
  is a \<open>string\<close>; text decoded from the server is a list of Unicode code points, since
  the replacement character U+FFFD is not an 8-bit character.
\<close>

type_synonym byte = "8 word"
type_synonym unicode = "nat list"

text \<open>
  The exceptions the client can raise. \<open>EOFError n k\<close> carries the two numbers of its
  message (expected size, received size); \<open>UnexpectedError\<close> the status code and the name
  of the failed library function; \<open>AllocationError\<close> the C type and the element count;
  \<open>ServerError\<close> the status sent by the server and the decoded message. The texts of the
  two \<open>TypeError\<close>s raised by the interpreter itself (iterating \<open>None\<close>, \<open>len\<close> of an
  unsized object) are descriptive only.
\<close>

datatype error =
    ValueError string
  | TypeError string
  | UnicodeEncodeError
  | EOFError nat nat
  | UnexpectedError int string
  | AllocationError string "64 word"
  | ServerError "32 word" unicode

text \<open>
  The argument \<open>ranges\<close> is declared \<^verbatim>\<open>list ranges\<close>: either \<open>None\<close> or a list of arbitrary
  objects. The objects considered here are the scalars \<open>None\<close>, \<open>bool\<close>, \<open>int\<close>, \<open>str\<close>
  and tuples and lists of scalars.
\<close>

datatype pyscalar = PyNone | PyBool bool | PyInt int | PyStr string

datatype pyobj = Scalar pyscalar | PyTuple "pyscalar list" | PyList "pyscalar list"

text \<open>\<open>len(r)\<close>: \<open>None\<close> for the objects on which \<open>len\<close> raises \<open>TypeError\<close>.\<close>

fun py_len :: "pyobj \<Rightarrow> nat option" where
  "py_len (Scalar (PyStr s)) = Some (length s)"
| "py_len (Scalar _) = None"
| "py_len (PyTuple xs) = Some (length xs)"
| "py_len (PyList xs) = Some (length xs)"

text \<open>The items \<open>r[0], r[1], ...\<close> of a sized object (a string yields its characters).\<close>

fun py_items :: "pyobj \<Rightarrow> pyscalar list" where
  "py_items (Scalar (PyStr s)) = map (\<lambda>c. PyStr [c]) s"
| "py_items (Scalar _) = []"
| "py_items (PyTuple xs) = xs"
| "py_items (PyList xs) = xs"

text \<open>\<open>isinstance(x, int)\<close>: \<open>bool\<close> is a subclass of \<open>int\<close>.\<close>

fun isinstance_int :: "pyscalar \<Rightarrow> bool" where
  "isinstance_int (PyBool _) = True"
| "isinstance_int (PyInt _) = True"
| "isinstance_int _ = False"

section \<open>Validation of the \<open>ranges\<close> argument\<close>

text \<open>
  \<^verbatim>\<open>any(len(r) != 2 for r in ranges)\<close>: evaluated from left to right, stopping at the
  first range whose length is not two, and failing where \<open>len\<close> raises.
\<close>

fun any_len_not_2 :: "pyobj list \<Rightarrow> error + bool" where
  "any_len_not_2 [] = Inr False"
| "any_len_not_2 (r # rs) =
     (case py_len r of
        None \<Rightarrow> Inl (TypeError ''object has no len()'')
      | Some n \<Rightarrow> if n \<noteq> 2 then Inr True else any_len_not_2 rs)"

text \<open>
  \<^verbatim>\<open>all(isinstance(r[0], int) and isinstance(r[1], int) for r in ranges)\<close>; it is only
  evaluated once every range is known to have two items.
\<close>

definition all_int_pairs :: "pyobj list \<Rightarrow> bool" where
  "all_int_pairs rs =
     list_all (\<lambda>r. isinstance_int (py_items r ! 0) \<and> isinstance_int (py_items r ! 1)) rs"

text \<open>
  Lines 196--202 of \<^verbatim>\<open>Client._client\<close>:
  \<^verbatim>\<open>
  if ranges is not None and len(ranges) < 1:
      raise ValueError("At least one range is needed for the `ranges` argument")
  elif any(len(r) != 2 for r in ranges):
      raise ValueError("`ranges` must be a list of two-element tuples")
  elif not all(isinstance(r[0], int) and isinstance(r[1], int) for r in ranges):
      raise TypeError("`ranges` must be a list where elements are 2-tuples of int")
  \<close>
  When \<open>ranges\<close> is \<open>None\<close> the first condition is false and the second branch iterates
  over \<open>None\<close>, which raises \<open>TypeError\<close>.
\<close>

definition check_ranges :: "pyobj list option \<Rightarrow> error + unit" where
  "check_ranges ranges =
     (if (case ranges of None \<Rightarrow> False | Some rs \<Rightarrow> length rs < 1)
      then Inl (ValueError ''At least one range is needed for the `ranges` argument'')
      else
        (case ranges of
           None \<Rightarrow> Inl (TypeError ''NoneType object is not iterable'')
         | Some rs \<Rightarrow>
             (case any_len_not_2 rs of
                Inl e \<Rightarrow> Inl e
              | Inr True \<Rightarrow> Inl (ValueError ''`ranges` must be a list of two-element tuples'')
              | Inr False \<Rightarrow>
                  if \<not> all_int_pairs rs
                  then Inl (TypeError ''`ranges` must be a list where elements are 2-tuples of int'')
                  else Inr ())))"

section \<open>Rendering the request line\<close>

text \<open>Decimal rendering of integers, as \<open>str.format\<close> and f-strings do.\<close>

definition digit :: "nat \<Rightarrow> char" where
  "digit d = ''0123456789'' ! d"

function str_nat :: "nat \<Rightarrow> string" where
  "str_nat n = (if n < 10 then [digit n] else str_nat (n div 10) @ [digit (n mod 10)])"
  by pat_completeness auto
termination
  by (relation "measure id") auto

definition str_int :: "int \<Rightarrow> string" where
  "str_int i = (if i < 0 then ''-'' @ str_nat (nat (- i)) else str_nat (nat i))"

fun py_str :: "pyscalar \<Rightarrow> string" where
  "py_str PyNone = ''None''"
| "py_str (PyBool b) = (if b then ''True'' else ''False'')"
| "py_str (PyInt i) = str_int i"
| "py_str (PyStr s) = s"

text \<open>\<^verbatim>\<open>sep.join(xs)\<close>\<close>

fun join :: "string \<Rightarrow> string list \<Rightarrow> string" where
  "join sep [] = []"
| "join sep [x] = x"
| "join sep (x # y # ys) = x @ sep @ join sep (y # ys)"

text \<open>\<^verbatim>\<open>"{}..{}".format(*r)\<close>, for a range \<open>r\<close> that passed validation (two items).\<close>

definition format_range :: "pyobj \<Rightarrow> string" where
  "format_range r = py_str (py_items r ! 0) @ ''..'' @ py_str (py_items r ! 1)"

datatype p7_pipemodes_e = p7_SEARCH_SEQS | p7_SCAN_MODELS

text \<open>
  Lines 211--219: the text of the request line.
  \<^verbatim>\<open>
  if mode == p7_pipemodes_e.p7_SEARCH_SEQS:
      if ranges is not None:
          options = "--seqdb_ranges {} {}".format(
              ",".join("{}..{}".format(*r) for r in ranges), options)
      self.socket.sendall(f"@--seqdb {db} {options}\n".encode("ascii"))
  else:
      self.socket.sendall(f"@--hmmdb {db} {options}\n".encode("ascii"))
  \<close>
\<close>

definition request_line ::
  "p7_pipemodes_e \<Rightarrow> 64 word \<Rightarrow> pyobj list option \<Rightarrow> string \<Rightarrow> string" where
  "request_line mode db ranges options =
     (if mode = p7_SEARCH_SEQS then
        (let options' =
           (case ranges of
              None \<Rightarrow> options
            | Some rs \<Rightarrow>
                ''--seqdb_ranges '' @ join '','' (map format_range rs) @ '' '' @ options)
         in ''@--seqdb '' @ str_nat (unat db) @ '' '' @ options' @ ''\<newline>'')
      else ''@--hmmdb '' @ str_nat (unat db) @ '' '' @ options @ ''\<newline>'')"

text \<open>\<^verbatim>\<open>s.encode("ascii")\<close>: raises on a character outside ASCII.\<close>

definition encode_ascii :: "string \<Rightarrow> error + byte list" where
  "encode_ascii s =
     (if list_all (\<lambda>c. (of_char c :: nat) < 128) s then Inr (map of_char s)
      else Inl UnicodeEncodeError)"

section \<open>The socket\<close>

text \<open>
  The world the client acts on: the log of \<open>send\<close> calls made on the socket (one entry
  per call), the fragments the peer will still deliver, in order, before it closes the
  connection, and the warnings emitted so far. A failing \<open>send\<close> (broken pipe) is not
  modelled.
\<close>

datatype warning = HitOffsetWarning nat "64 word" "32 word"

record world =
  sent :: "byte list list"
  incoming :: "byte list list"
  warnings :: "warning list"

definition sendall :: "byte list \<Rightarrow> world \<Rightarrow> world" where
  "sendall bs w = w\<lparr>sent := sent w @ [bs]\<rparr>"

text \<open>
  One receive of at most \<open>m\<close> bytes: the next fragment, cut to \<open>m\<close> bytes (the rest of
  the fragment stays in the stream); no byte once the peer has closed. A fragment is a
  delivery of at least one byte: an empty entry of the list delivers nothing and is
  passed over.
\<close>

fun deliver :: "nat \<Rightarrow> byte list list \<Rightarrow> byte list \<times> byte list list" where
  "deliver m [] = ([], [])"
| "deliver m (f # fs) =
     (if f = [] then deliver m fs
      else (take m f, if m < length f then drop m f # fs else fs))"

text \<open>\<^verbatim>\<open>socket.recv(bufsize)\<close> and \<^verbatim>\<open>socket.recv_into(view)\<close> for a view of \<open>m\<close> bytes.\<close>

definition recv :: "nat \<Rightarrow> world \<Rightarrow> byte list \<times> world" where
  "recv bufsize w =
     (case deliver bufsize (incoming w) of (data, rest) \<Rightarrow> (data, w\<lparr>incoming := rest\<rparr>))"

definition recv_into :: "nat \<Rightarrow> world \<Rightarrow> byte list \<times> world" where
  "recv_into m w =
     (case deliver m (incoming w) of (data, rest) \<Rightarrow> (data, w\<lparr>incoming := rest\<rparr>))"

text \<open>Writing \<open>data\<close> through a view that starts \<open>off\<close> bytes into \<open>buffer\<close>.\<close>

definition write_at :: "byte list \<Rightarrow> nat \<Rightarrow> byte list \<Rightarrow> byte list" where
  "write_at buffer off data = take off buffer @ data @ drop (off + length data) buffer"

text \<open>
  \<^verbatim>\<open>Client._recvall\<close> (lines 141--157):
  \<^verbatim>\<open>
  buffer = bytearray(message_size); view = memoryview(buffer)
  received = 0
  while received < message_size:
      recv_size = self.socket.recv_into(view)
      if recv_size == 0:
          raise EOFError(f"Expected message of size {message_size}, received {received}")
      received += recv_size
      view = view[recv_size:]
  return buffer
  \<close>
  The view always covers \<open>buffer[received:]\<close>, so it has \<open>message_size - received\<close> bytes.
\<close>

function recvall_loop ::
  "nat \<Rightarrow> nat \<Rightarrow> byte list \<Rightarrow> world \<Rightarrow> (error + byte list) \<times> world" where
  "recvall_loop message_size received buffer w =
     (if received < message_size then
        (case recv_into (message_size - received) w of
           (data, w') \<Rightarrow>
             if length data = 0 then (Inl (EOFError message_size received), w')
             else recvall_loop message_size (received + length data)
                    (write_at buffer received data) w')
      else (Inr buffer, w))"
  by pat_completeness auto
termination
  by (relation "measure (\<lambda>(message_size, received, buffer, w). message_size - received)")
     (auto simp: neq_Nil_conv)

definition recvall :: "nat \<Rightarrow> world \<Rightarrow> (error + byte list) \<times> world" where
  "recvall message_size w = recvall_loop message_size 0 (replicate message_size 0) w"

section \<open>The structures of the HMMER library\<close>

text \<open>
  The C structures the client reads and writes, with the fields it touches. Doubles are
  only copied, never computed with: they are carried as their 64-bit patterns. The fields
  of \<^verbatim>\<open>P7_PIPELINE\<close> and \<^verbatim>\<open>P7_HIT\<close> that the client never names are kept together in
  one field of an arbitrary type, and so is the domain array of a hit.
\<close>

type_synonym double = "64 word"

definition eslOK :: int where
  "eslOK = 0"

record HMMD_SEARCH_STATUS =
  status :: "32 word"
  msg_size :: "64 word"

text \<open>\<open>stats_hit_offsets\<close> is the array behind the pointer \<^verbatim>\<open>hit_offsets\<close>, by index.\<close>

record HMMD_SEARCH_STATS =
  stats_Z :: double
  stats_domZ :: double
  stats_Z_setby :: int
  stats_domZ_setby :: int
  stats_nmodels :: "64 word"
  stats_nseqs :: "64 word"
  stats_n_past_msv :: "64 word"
  stats_n_past_vit :: "64 word"
  stats_n_past_fwd :: "64 word"
  stats_nhits :: "64 word"
  stats_nreported :: "64 word"
  stats_nincluded :: "64 word"
  stats_hit_offsets :: "nat \<Rightarrow> 64 word"

record 'c P7_PIPELINE =
  pli_mode :: p7_pipemodes_e
  pli_nmodels :: "64 word"
  pli_nseqs :: "64 word"
  pli_n_past_msv :: "64 word"
  pli_n_past_vit :: "64 word"
  pli_n_past_fwd :: "64 word"
  pli_Z :: double
  pli_domZ :: double
  pli_Z_setby :: int
  pli_domZ_setby :: int
  pli_settings :: 'c

record ('d, 's) P7_HIT =
  hit_name :: "string option"
  hit_acc :: "string option"
  hit_desc :: "string option"
  hit_dcl :: "'d option"
  hit_scalars :: 's

text \<open>
  \<open>th_unsrt\<close> is the array of hit records and \<open>th_hit\<close> the array of pointers into it
  (the sorted view); a pointer \<^verbatim>\<open>&unsrt[i]\<close> is represented by the index \<open>i\<close>.
\<close>

record ('d, 's) P7_TOPHITS =
  th_hit :: "nat list"
  th_unsrt :: "('d, 's) P7_HIT list"
  th_Nalloc :: "64 word"
  th_N :: "64 word"
  th_nreported :: "64 word"
  th_nincluded :: "64 word"
  th_is_sorted_by_sortkey :: bool
  th_is_sorted_by_seqidx :: bool

text \<open>The Cython objects: \<^verbatim>\<open>TopHits\<close> (\<^verbatim>\<open>_pli\<close>, \<^verbatim>\<open>_th\<close>) and \<^verbatim>\<open>Pipeline\<close> (\<^verbatim>\<open>_pli\<close> and the
  result of \<^verbatim>\<open>arguments()\<close>). A query object is what its \<^verbatim>\<open>write\<close> method writes.\<close>

record ('d, 's, 'c) TopHits =
  TopHits_pli :: "'c P7_PIPELINE"
  TopHits_th :: "('d, 's) P7_TOPHITS"

record 'c Pipeline =
  arguments :: "string list"
  Pipeline_pli :: "'c P7_PIPELINE"

record Query =
  query_write :: "byte list"

text \<open>
  What the client calls and this module does not define: the three deserializers of
  libhmmer (each takes the buffer and the cursor and returns a status code, the new cursor
  and the decoded structure; the two fixed-layout ones are always given a zeroed
  structure, the hit deserializer fills the given record), the size of the serialized
  status, the outcome of the two \<^verbatim>\<open>realloc\<close> calls and the content of the cells they add,
  the codec behind \<^verbatim>\<open>bytes.decode("utf-8", "replace")\<close>, and the object that \<^verbatim>\<open>TopHits()\<close>
  creates.
\<close>

record ('d, 's, 'c) libs =
  HMMD_SEARCH_STATUS_SERIAL_SIZE :: nat
  hmmd_search_status_Deserialize ::
    "byte list \<Rightarrow> 32 word \<Rightarrow> int \<times> 32 word \<times> HMMD_SEARCH_STATUS"
  p7_hmmd_search_stats_Deserialize ::
    "byte list \<Rightarrow> 32 word \<Rightarrow> int \<times> 32 word \<times> HMMD_SEARCH_STATS"
  p7_hit_Deserialize ::
    "byte list \<Rightarrow> 32 word \<Rightarrow> ('d, 's) P7_HIT \<Rightarrow> int \<times> 32 word \<times> ('d, 's) P7_HIT"
  realloc_unsrt_ok :: "64 word \<Rightarrow> bool"
  realloc_hit_ok :: "64 word \<Rightarrow> bool"
  fresh_unsrt :: "nat \<Rightarrow> ('d, 's) P7_HIT"
  fresh_hit :: "nat \<Rightarrow> nat"
  decode_utf8_replace :: "byte list \<Rightarrow> unicode"
  TopHits_new :: "('d, 's, 'c) TopHits"

section \<open>Decoding the response\<close>

text \<open>\<^verbatim>\<open>warnings.warn(message)\<close>, with the default filters: the warning is recorded.\<close>

definition warn :: "warning \<Rightarrow> world \<Rightarrow> world" where
  "warn x w = w\<lparr>warnings := warnings w @ [x]\<rparr>"

text \<open>
  \<^verbatim>\<open>realloc(p, n * sizeof(T))\<close>: fails, or gives an array of \<open>n\<close> cells that keeps the old
  content up to \<open>n\<close>; the cells added hold whatever the allocator left there. The product
  \<open>n * sizeof(T)\<close> is taken as it is written, without the wrap-around of \<^verbatim>\<open>size_t\<close>.
\<close>

definition realloc :: "bool \<Rightarrow> (nat \<Rightarrow> 'a) \<Rightarrow> 'a list \<Rightarrow> nat \<Rightarrow> 'a list option" where
  "realloc ok fresh xs n =
     (if ok then Some (take n xs @ map fresh [length xs..<n]) else None)"

text \<open>
  Lines 254--271: the pipeline structure of the query is copied, then the statistics sent
  by the server are written over it and into the hit list.
\<close>

definition copy_stats ::
  "p7_pipemodes_e \<Rightarrow> 'c Pipeline \<Rightarrow> HMMD_SEARCH_STATS \<Rightarrow> ('d, 's, 'c) TopHits
     \<Rightarrow> ('d, 's, 'c) TopHits" where
  "copy_stats mode pli search_stats hits =
     hits\<lparr>
       TopHits_pli := (Pipeline_pli pli)\<lparr>
         pli_mode := mode,
         pli_nmodels := stats_nmodels search_stats,
         pli_nseqs := stats_nseqs search_stats,
         pli_n_past_msv := stats_n_past_msv search_stats,
         pli_n_past_vit := stats_n_past_vit search_stats,
         pli_n_past_fwd := stats_n_past_fwd search_stats,
         pli_Z := stats_Z search_stats,
         pli_domZ := stats_domZ search_stats,
         pli_Z_setby := stats_Z_setby search_stats,
         pli_domZ_setby := stats_domZ_setby search_stats\<rparr>,
       TopHits_th := (TopHits_th hits)\<lparr>
         th_nreported := stats_nreported search_stats,
         th_nincluded := stats_nincluded search_stats,
         th_is_sorted_by_seqidx := False,
         th_is_sorted_by_sortkey := True,
         th_N := stats_nhits search_stats\<rparr>\<rparr>"

text \<open>Lines 273--280: the two arrays are resized to \<open>nhits\<close> cells when \<open>nhits > 0\<close>.\<close>

definition reallocate ::
  "('d, 's, 'c) libs \<Rightarrow> 64 word \<Rightarrow> ('d, 's) P7_TOPHITS \<Rightarrow> error + ('d, 's) P7_TOPHITS" where
  "reallocate env nhits th =
     (if nhits > 0 then
        (case realloc (realloc_unsrt_ok env nhits) (fresh_unsrt env) (th_unsrt th) (unat nhits) of
           None \<Rightarrow> Inl (AllocationError ''P7_HIT'' nhits)
         | Some unsrt \<Rightarrow>
             (case realloc (realloc_hit_ok env nhits) (fresh_hit env) (th_hit th) (unat nhits) of
                None \<Rightarrow> Inl (AllocationError ''P7_HIT*'' nhits)
              | Some hit \<Rightarrow> Inr (th\<lparr>th_unsrt := unsrt, th_hit := hit\<rparr>)))
      else Inr th)"

text \<open>
  The body of the loop over the hits (lines 285--302), for the index \<open>i\<close>:
  \<^verbatim>\<open>
  hits._th.unsrt[i].name = NULL   # and acc, desc, dcl
  if buf_offset - hits_start != search_stats.hit_offsets[i]:
      with gil:
          warnings.warn(f"Hit offset {i} did not match expected (expected ..., found ...)")
  status = libhmmer.p7_hit.p7_hit_Deserialize(response_data, &buf_offset, &hits._th.unsrt[i])
  if status != libeasel.eslOK:
      raise UnexpectedError(status, "p7_hit_Deserialize")
  hits._th.hit[i] = &hits._th.unsrt[i]
  \<close>
  \<open>buf_offset\<close> and \<open>hits_start\<close> are \<^verbatim>\<open>uint32_t\<close>: their difference wraps at 32 bits and is
  widened for the comparison with the 64-bit table entry.
\<close>

definition clear_pointers :: "('d, 's) P7_HIT \<Rightarrow> ('d, 's) P7_HIT" where
  "clear_pointers h = h\<lparr>hit_name := None, hit_acc := None, hit_desc := None, hit_dcl := None\<rparr>"

definition deserialize_hit ::
  "('d, 's, 'c) libs \<Rightarrow> byte list \<Rightarrow> 32 word \<Rightarrow> (nat \<Rightarrow> 64 word) \<Rightarrow> nat \<Rightarrow> 32 word
     \<Rightarrow> ('d, 's) P7_TOPHITS \<Rightarrow> world \<Rightarrow> (error + 32 word \<times> ('d, 's) P7_TOPHITS) \<times> world" where
  "deserialize_hit env response_data hits_start hit_offsets i buf_offset th w =
     (let th1 = th\<lparr>th_unsrt := (th_unsrt th)[i := clear_pointers (th_unsrt th ! i)]\<rparr>;
          w1 = (if ucast (buf_offset - hits_start) \<noteq> hit_offsets i
                then warn (HitOffsetWarning i (hit_offsets i) (buf_offset - hits_start)) w
                else w)
      in case p7_hit_Deserialize env response_data buf_offset (th_unsrt th1 ! i) of
           (st, buf_offset', h) \<Rightarrow>
             if st \<noteq> eslOK then (Inl (UnexpectedError st ''p7_hit_Deserialize''), w1)
             else (Inr (buf_offset',
                        th1\<lparr>th_unsrt := (th_unsrt th1)[i := h],
                            th_hit := (th_hit th1)[i := i]\<rparr>), w1))"

text \<open>\<^verbatim>\<open>for i in range(search_stats.nhits)\<close>, from the index \<open>i\<close> on.\<close>

function deserialize_hits ::
  "('d, 's, 'c) libs \<Rightarrow> byte list \<Rightarrow> 32 word \<Rightarrow> (nat \<Rightarrow> 64 word) \<Rightarrow> nat \<Rightarrow> nat \<Rightarrow> 32 word
     \<Rightarrow> ('d, 's) P7_TOPHITS \<Rightarrow> world \<Rightarrow> (error + 32 word \<times> ('d, 's) P7_TOPHITS) \<times> world" where
  "deserialize_hits env response_data hits_start hit_offsets nhits i buf_offset th w =
     (if i < nhits then
        (case deserialize_hit env response_data hits_start hit_offsets i buf_offset th w of
           (Inl e, w1) \<Rightarrow> (Inl e, w1)
         | (Inr (buf_offset', th'), w1) \<Rightarrow>
             deserialize_hits env response_data hits_start hit_offsets nhits (i + 1)
               buf_offset' th' w1)
      else (Inr (buf_offset, th), w))"
  by pat_completeness auto
termination
  by (relation "measure (\<lambda>(env, response_data, hits_start, hit_offsets, nhits, i, rest). nhits - i)")
     auto

text \<open>
  Lines 242--302, the block that decodes the payload: statistics first (cursor at 0),
  then the copy, the resize and the hits, which start where the statistics end.
\<close>

definition decode_response ::
  "('d, 's, 'c) libs \<Rightarrow> 'c Pipeline \<Rightarrow> p7_pipemodes_e \<Rightarrow> ('d, 's, 'c) TopHits \<Rightarrow> byte list
     \<Rightarrow> world \<Rightarrow> (error + ('d, 's, 'c) TopHits) \<times> world" where
  "decode_response env pli mode hits response_data w =
     (case p7_hmmd_search_stats_Deserialize env response_data 0 of
        (st, buf_offset, search_stats) \<Rightarrow>
          if st \<noteq> eslOK
          then (Inl (UnexpectedError st ''p7_hmmd_search_search_stats_Deserialize''), w)
          else
            (let hits1 = copy_stats mode pli search_stats hits in
             case reallocate env (stats_nhits search_stats) (TopHits_th hits1) of
               Inl e \<Rightarrow> (Inl e, w)
             | Inr th \<Rightarrow>
                 (case deserialize_hits env response_data buf_offset
                         (stats_hit_offsets search_stats) (unat (stats_nhits search_stats))
                         0 buf_offset th w of
                    (Inl e, w1) \<Rightarrow> (Inl e, w1)
                  | (Inr (buf_offset', th'), w1) \<Rightarrow> (Inr (hits1\<lparr>TopHits_th := th'\<rparr>), w1))))"

section \<open>The client\<close>

text \<open>
  \<^verbatim>\<open>Client._client\<close> (lines 159--307), in two parts: what follows the request
  (\<open>receive_response\<close>, lines 223--302: the status header, then either the error message
  or the payload), and the whole method, which validates \<open>ranges\<close>, sends the request line,
  the query and the terminator, and then receives. The file object made by
  \<^verbatim>\<open>socket.makefile("wb")\<close> is released right after \<^verbatim>\<open>query.write\<close> returns, which flushes it:
  the bytes of the query reach the socket before the terminator is sent.
\<close>

definition receive_response ::
  "('d, 's, 'c) libs \<Rightarrow> 'c Pipeline \<Rightarrow> p7_pipemodes_e \<Rightarrow> ('d, 's, 'c) TopHits
     \<Rightarrow> world \<Rightarrow> (error + ('d, 's, 'c) TopHits) \<times> world" where
  "receive_response env pli mode hits w =
     (case recvall (HMMD_SEARCH_STATUS_SERIAL_SIZE env) w of
        (Inl e, w2) \<Rightarrow> (Inl e, w2)
      | (Inr response, w2) \<Rightarrow>
          (case hmmd_search_status_Deserialize env response 0 of
             (st, buf_offset, search_status) \<Rightarrow>
               if st \<noteq> eslOK
               then (Inl (UnexpectedError st ''hmmd_search_status_Deserialize''), w2)
               else if status search_status \<noteq> 0
               then
                 (case recv (unat (msg_size search_status)) w2 of
                    (err, w3) \<Rightarrow>
                      (Inl (ServerError (status search_status) (decode_utf8_replace env err)),
                       w3))
               else
                 (case recvall (unat (msg_size search_status)) w2 of
                    (Inl e, w3) \<Rightarrow> (Inl e, w3)
                  | (Inr response, w3) \<Rightarrow> decode_response env pli mode hits response w3)))"

definition client ::
  "('d, 's, 'c) libs \<Rightarrow> Query \<Rightarrow> 64 word \<Rightarrow> pyobj list option \<Rightarrow> 'c Pipeline \<Rightarrow> p7_pipemodes_e
     \<Rightarrow> world \<Rightarrow> (error + ('d, 's, 'c) TopHits) \<times> world" where
  "client env query db ranges pli mode w =
     (let hits = TopHits_new env;
          options = concat (arguments pli)
      in case check_ranges ranges of
           Inl e \<Rightarrow> (Inl e, w)
         | Inr _ \<Rightarrow>
             (case encode_ascii (request_line mode db ranges options) of
                Inl e \<Rightarrow> (Inl e, w)
              | Inr line \<Rightarrow>
                  receive_response env pli mode hits
                    (sendall (map of_char ''//'')
                       (sendall (query_write query) (sendall line w)))))"

text \<open>
  The public methods (lines 327--439). Each builds a \<^verbatim>\<open>Pipeline\<close> from the keyword options
  (here: \<open>pli\<close>) and calls \<^verbatim>\<open>_client\<close>; \<^verbatim>\<open>scan_seq\<close> has no \<open>ranges\<close> argument and passes \<open>None\<close>.
\<close>

definition search_seq ::
  "('d, 's, 'c) libs \<Rightarrow> Query \<Rightarrow> 64 word \<Rightarrow> pyobj list option \<Rightarrow> 'c Pipeline
     \<Rightarrow> world \<Rightarrow> (error + ('d, 's, 'c) TopHits) \<times> world" where
  "search_seq env query db ranges pli w = client env query db ranges pli p7_SEARCH_SEQS w"

definition search_msa ::
  "('d, 's, 'c) libs \<Rightarrow> Query \<Rightarrow> 64 word \<Rightarrow> pyobj list option \<Rightarrow> 'c Pipeline
     \<Rightarrow> world \<Rightarrow> (error + ('d, 's, 'c) TopHits) \<times> world" where
  "search_msa env query db ranges pli w = client env query db ranges pli p7_SEARCH_SEQS w"

definition search_hmm ::
  "('d, 's, 'c) libs \<Rightarrow> Query \<Rightarrow> 64 word \<Rightarrow> pyobj list option \<Rightarrow> 'c Pipeline
     \<Rightarrow> world \<Rightarrow> (error + ('d, 's, 'c) TopHits) \<times> world" where
  "search_hmm env query db ranges pli w = client env query db ranges pli p7_SEARCH_SEQS w"

definition scan_seq ::
  "('d, 's, 'c) libs \<Rightarrow> Query \<Rightarrow> 64 word \<Rightarrow> 'c Pipeline
     \<Rightarrow> world \<Rightarrow> (error + ('d, 's, 'c) TopHits) \<times> world" where
  "scan_seq env query db pli w = client env query db None pli p7_SCAN_MODELS w"

section \<open>Reference notions used to state the properties\<close>

text \<open>
  Decoding a run of hit records one after the other, each into its own cleared cell and
  each starting where the previous one stopped: the records and the final cursor, or
  \<open>None\<close> when one of them is refused. The loop of the client is compared with it.
\<close>

fun decode_records ::
  "('d, 's, 'c) libs \<Rightarrow> byte list \<Rightarrow> 32 word \<Rightarrow> ('d, 's) P7_HIT list
     \<Rightarrow> (('d, 's) P7_HIT list \<times> 32 word) option" where
  "decode_records env response_data buf_offset [] = Some ([], buf_offset)"
| "decode_records env response_data buf_offset (cell # cells) =
     (case p7_hit_Deserialize env response_data buf_offset (clear_pointers cell) of
        (st, buf_offset', h) \<Rightarrow>
          if st \<noteq> eslOK then None
          else
            (case decode_records env response_data buf_offset' cells of
               None \<Rightarrow> None
             | Some (hs, buf_offset'') \<Rightarrow> Some (h # hs, buf_offset'')))"

text \<open>
  The records of a hit list (the first \<open>N\<close> cells of its storage) and what an iteration
  through its pointer array reads.
\<close>

definition hit_records :: "('d, 's) P7_TOPHITS \<Rightarrow> ('d, 's) P7_HIT list" where
  "hit_records th = take (unat (th_N th)) (th_unsrt th)"

definition sorted_view :: "('d, 's) P7_TOPHITS \<Rightarrow> ('d, 's) P7_HIT list" where
  "sorted_view th = map (\<lambda>p. th_unsrt th ! p) (take (unat (th_N th)) (th_hit th))"

text \<open>
  The cursors at which the records of such a run start (up to and including the first
  record that is refused), and the warnings that a table of expected offsets calls for
  along these cursors: one for each record, from the index \<open>i\<close> on, whose offset from
  \<open>hits_start\<close> is not the entry of the table.
\<close>

fun hit_cursors ::
  "('d, 's, 'c) libs \<Rightarrow> byte list \<Rightarrow> 32 word \<Rightarrow> ('d, 's) P7_HIT list \<Rightarrow> 32 word list" where
  "hit_cursors env response_data buf_offset [] = []"
| "hit_cursors env response_data buf_offset (cell # cells) =
     buf_offset #
     (case p7_hit_Deserialize env response_data buf_offset (clear_pointers cell) of
        (st, buf_offset', h) \<Rightarrow>
          if st \<noteq> eslOK then [] else hit_cursors env response_data buf_offset' cells)"

fun mismatch_warnings :: "32 word \<Rightarrow> (nat \<Rightarrow> 64 word) \<Rightarrow> nat \<Rightarrow> 32 word list \<Rightarrow> warning list" where
  "mismatch_warnings hits_start hit_offsets i [] = []"
| "mismatch_warnings hits_start hit_offsets i (c # cs) =
     (if ucast (c - hits_start) \<noteq> hit_offsets i
      then [HitOffsetWarning i (hit_offsets i) (c - hits_start)] else [])
     @ mismatch_warnings hits_start hit_offsets (i + 1) cs"

section \<open>A miniature wire format\<close>

text \<open>
  The layout of HMMER's records is not defined in this module. To run the client on
  concrete byte streams, here is a small stand-in for the library: a status header of two
  bytes (status, payload size); a statistics block made of the number of hits followed by
  one offset byte per hit; and hit records of one byte each.
\<close>

definition mini_status :: "byte list \<Rightarrow> 32 word \<Rightarrow> int \<times> 32 word \<times> HMMD_SEARCH_STATUS" where
  "mini_status buf n =
     (case drop (unat n) buf of
        a # b # _ \<Rightarrow> (0, n + 2, \<lparr>status = ucast a, msg_size = ucast b\<rparr>)
      | _ \<Rightarrow> (4, n, \<lparr>status = 0, msg_size = 0\<rparr>))"

definition zero_stats :: HMMD_SEARCH_STATS where
  "zero_stats =
     \<lparr>stats_Z = 0, stats_domZ = 0, stats_Z_setby = 0, stats_domZ_setby = 0,
      stats_nmodels = 0, stats_nseqs = 0, stats_n_past_msv = 0, stats_n_past_vit = 0,
      stats_n_past_fwd = 0, stats_nhits = 0, stats_nreported = 0, stats_nincluded = 0,
      stats_hit_offsets = (\<lambda>i. 0)\<rparr>"

definition mini_stats :: "byte list \<Rightarrow> 32 word \<Rightarrow> int \<times> 32 word \<times> HMMD_SEARCH_STATS" where
  "mini_stats buf n =
     (case drop (unat n) buf of
        [] \<Rightarrow> (4, n, zero_stats)
      | k # rest \<Rightarrow>
          if length rest < unat k then (4, n, zero_stats)
          else (0, n + 1 + ucast k,
                zero_stats\<lparr>stats_nhits := ucast k,
                           stats_hit_offsets := (\<lambda>i. if i < unat k then ucast (rest ! i) else 0)\<rparr>))"

definition mini_hit ::
  "byte list \<Rightarrow> 32 word \<Rightarrow> (unit, nat) P7_HIT \<Rightarrow> int \<times> 32 word \<times> (unit, nat) P7_HIT" where
  "mini_hit buf n cell =
     (case drop (unat n) buf of
        [] \<Rightarrow> (4, n, cell)
      | b # _ \<Rightarrow> (0, n + 1, cell\<lparr>hit_name := Some ''hit'', hit_scalars := unat b\<rparr>))"

definition mini_cell :: "(unit, nat) P7_HIT" where
  "mini_cell = \<lparr>hit_name = None, hit_acc = None, hit_desc = None, hit_dcl = None, hit_scalars = 0\<rparr>"

definition mini_pipeline :: "unit P7_PIPELINE" where
  "mini_pipeline =
     \<lparr>pli_mode = p7_SEARCH_SEQS, pli_nmodels = 0, pli_nseqs = 0, pli_n_past_msv = 0,
      pli_n_past_vit = 0, pli_n_past_fwd = 0, pli_Z = 0, pli_domZ = 0, pli_Z_setby = 0,
      pli_domZ_setby = 0, pli_settings = ()\<rparr>"

definition mini_libs :: "(unit, nat, unit) libs" where
  "mini_libs =
     \<lparr>HMMD_SEARCH_STATUS_SERIAL_SIZE = 2,
      hmmd_search_status_Deserialize = mini_status,
      p7_hmmd_search_stats_Deserialize = mini_stats,
      p7_hit_Deserialize = mini_hit,
      realloc_unsrt_ok = (\<lambda>n. True),
      realloc_hit_ok = (\<lambda>n. True),
      fresh_unsrt = (\<lambda>i. mini_cell),
      fresh_hit = (\<lambda>i. 0),
      decode_utf8_replace = map (\<lambda>b. if b < 128 then unat b else 65533),
      TopHits_new =
        \<lparr>TopHits_pli = mini_pipeline,
         TopHits_th =
           \<lparr>th_hit = [0], th_unsrt = [mini_cell], th_Nalloc = 1, th_N = 0, th_nreported = 0,
            th_nincluded = 0, th_is_sorted_by_sortkey = False, th_is_sorted_by_seqidx = True\<rparr>\<rparr>\<rparr>"

definition mini_query :: Query where
  "mini_query = \<lparr>query_write = [81]\<rparr>"

definition mini_pli :: "unit Pipeline" where
  "mini_pli = \<lparr>arguments = [], Pipeline_pli = mini_pipeline\<rparr>"

text \<open>A peer that answers with the given fragments and then closes.\<close>

definition peer :: "byte list list \<Rightarrow> world" where
  "peer frags = \<lparr>sent = [], incoming = frags, warnings = []\<rparr>"

text \<open>
  The payload \<open>[2, 0, 5, 7, 9]\<close> in this format: two hits, expected at the offsets 0 and
  5, with the records 7 and 9. Its statistics block, the hit list after the resize, and
  the hit list the client builds from it.
\<close>

definition mini_block :: HMMD_SEARCH_STATS where
  "mini_block = snd (snd (mini_stats [2, 0, 5, 7, 9] 0))"

definition mini_cells :: "(unit, nat) P7_TOPHITS" where
  "mini_cells =
     \<lparr>th_hit = [0, 0], th_unsrt = [mini_cell, mini_cell], th_Nalloc = 1, th_N = 2,
      th_nreported = 0, th_nincluded = 0, th_is_sorted_by_sortkey = True,
      th_is_sorted_by_seqidx = False\<rparr>"

definition mini_result :: "(unit, nat, unit) TopHits" where
  "mini_result =
     \<lparr>TopHits_pli = mini_pipeline,
      TopHits_th =
        \<lparr>th_hit = [0, 1],
         th_unsrt =
           [\<lparr>hit_name = Some ''hit'', hit_acc = None, hit_desc = None, hit_dcl = None,
             hit_scalars = 7\<rparr>,
            \<lparr>hit_name = Some ''hit'', hit_acc = None, hit_desc = None, hit_dcl = None,
             hit_scalars = 9\<rparr>],
         th_Nalloc = 1, th_N = 2, th_nreported = 0, th_nincluded = 0,
         th_is_sorted_by_sortkey = True, th_is_sorted_by_seqidx = False\<rparr>\<rparr>"

section \<open>Receiving an exact number of bytes\<close>

lemma deliver_length:
  "deliver m frags = (data, rest) \<Longrightarrow>
     length data \<le> m \<and> length (concat rest) = length (concat frags) - length data \<and>
     data = take (length data) (concat frags) \<and> concat rest = drop (length data) (concat frags)"
  by (induction frags) (auto simp: min_def split: if_splits)

lemma deliver_nonempty:
  "deliver m frags = (data, rest) \<Longrightarrow> 0 < m \<Longrightarrow> concat frags \<noteq> [] \<Longrightarrow> data \<noteq> []"
  by (induction frags) (auto split: if_splits)

lemma recv_into_world:
  "recv_into m w = (data, w') \<Longrightarrow>
     deliver m (incoming w) = (data, incoming w') \<and> sent w' = sent w \<and> warnings w' = warnings w"
  by (auto simp: recv_into_def split: prod.splits)

lemma recvall_loop_length:
  "recvall_loop m r buffer w = (Inr buf, w') \<Longrightarrow> r \<le> m \<Longrightarrow> length buffer = m \<Longrightarrow> length buf = m"
proof (induction m r buffer w rule: recvall_loop.induct)
  case (1 m r buffer w)
  show ?case
  proof (cases "r < m")
    case False
    with "1.prems" show ?thesis by simp
  next
    case True
    obtain data w1 where rv: "recv_into (m - r) w = (data, w1)" by force
    from recv_into_world[OF rv] have d: "deliver (m - r) (incoming w) = (data, incoming w1)" by simp
    from deliver_length[OF d] have le: "length data \<le> m - r" by simp
    from "1.prems"(1) True rv have ne: "length data \<noteq> 0"
      by (auto split: if_splits)
    from "1.prems"(1) True rv ne
    have rec: "recvall_loop m (r + length data) (write_at buffer r data) w1 = (Inr buf, w')"
      by simp
    have len: "length (write_at buffer r data) = m"
      using le True "1.prems"(3) by (simp add: write_at_def)
    show ?thesis
      using "1.IH"[OF True rv[symmetric] ne rec] le True len by simp
  qed
qed

lemma recvall_loop_complete:
  "r \<le> m \<Longrightarrow> length buffer = m \<Longrightarrow> m - r \<le> length (concat (incoming w)) \<Longrightarrow>
   \<exists>w'. recvall_loop m r buffer w = (Inr (take r buffer @ take (m - r) (concat (incoming w))), w')
       \<and> concat (incoming w') = drop (m - r) (concat (incoming w))"
proof (induction m r buffer w rule: recvall_loop.induct)
  case (1 m r buffer w)
  show ?case
  proof (cases "r < m")
    case False
    with "1.prems" show ?thesis by simp
  next
    case True
    obtain data w1 where rv: "recv_into (m - r) w = (data, w1)" by force
    from recv_into_world[OF rv]
    have d: "deliver (m - r) (incoming w) = (data, incoming w1)" by simp
    from True "1.prems"(3) have "length (concat (incoming w)) \<noteq> 0" by arith
    then have nonempty: "concat (incoming w) \<noteq> []" by (metis list.size(3))
    from deliver_nonempty[OF d _ nonempty] True have ne: "data \<noteq> []" by simp
    from deliver_length[OF d]
    have le: "length data \<le> m - r"
      and pre: "data = take (length data) (concat (incoming w))"
      and post: "concat (incoming w1) = drop (length data) (concat (incoming w))" by simp_all
    have len: "length (write_at buffer r data) = m"
      using le True "1.prems"(2) by (simp add: write_at_def)
    have r': "r + length data \<le> m" using le True by simp
    have enough: "m - (r + length data) \<le> length (concat (incoming w1))"
      using post "1.prems"(3) by simp
    from ne have ne0: "length data \<noteq> 0" by simp
    from "1.IH"[OF True rv[symmetric] ne0 r' len enough]
    obtain w' where
      res: "recvall_loop m (r + length data) (write_at buffer r data) w1 =
              (Inr (take (r + length data) (write_at buffer r data) @
                    take (m - (r + length data)) (concat (incoming w1))), w')"
      and rest: "concat (incoming w') = drop (m - (r + length data)) (concat (incoming w1))"
      by blast
    have step: "recvall_loop m r buffer w =
                  recvall_loop m (r + length data) (write_at buffer r data) w1"
      using True rv ne0 by simp
    have a: "take (r + length data) (write_at buffer r data) = take r buffer @ data"
      using True "1.prems"(2) by (simp add: write_at_def)
    have "take (m - r) (concat (incoming w)) =
            take (length data) (concat (incoming w)) @
            take (m - r - length data) (drop (length data) (concat (incoming w)))"
      using le by (metis le_add_diff_inverse take_add)
    with pre post
    have b: "data @ take (m - (r + length data)) (concat (incoming w1)) =
             take (m - r) (concat (incoming w))"
      by (simp add: diff_diff_eq)
    have c: "drop (m - (r + length data)) (concat (incoming w1)) =
             drop (m - r) (concat (incoming w))"
    proof -
      have "m - (r + length data) + length data = m - r" using le by arith
      with post show ?thesis by simp
    qed
    show ?thesis
      using step res rest a b c by simp
  qed
qed

lemma recvall_loop_eof:
  "length (concat (incoming w)) < m - r \<Longrightarrow>
   \<exists>w'. recvall_loop m r buffer w = (Inl (EOFError m (r + length (concat (incoming w)))), w')"
proof (induction m r buffer w rule: recvall_loop.induct)
  case (1 m r buffer w)
  from "1.prems" have True: "r < m" by simp
  obtain data w1 where rv: "recv_into (m - r) w = (data, w1)" by force
  from recv_into_world[OF rv]
  have d: "deliver (m - r) (incoming w) = (data, incoming w1)" by simp
  from deliver_length[OF d]
  have le: "length data \<le> m - r"
    and pre: "data = take (length data) (concat (incoming w))"
    and post: "length (concat (incoming w1)) = length (concat (incoming w)) - length data"
    by simp_all
  show ?case
  proof (cases "length data = 0")
    case True
    have res: "recvall_loop m r buffer w = (Inl (EOFError m r), w1)"
      using \<open>r < m\<close> rv True by simp
    have "concat (incoming w) = []"
    proof (rule ccontr)
      assume "concat (incoming w) \<noteq> []"
      from deliver_nonempty[OF d _ this] \<open>r < m\<close> True show False by simp
    qed
    with res show ?thesis by simp
  next
    case False
    have dl: "length data \<le> length (concat (incoming w))"
      using pre by (metis length_take min.cobounded1 min.commute)
    have short: "length (concat (incoming w1)) < m - (r + length data)"
      using post "1.prems" dl by simp
    from "1.IH"[OF \<open>r < m\<close> rv[symmetric] False short]
    obtain w' where
      res: "recvall_loop m (r + length data) (write_at buffer r data) w1 =
              (Inl (EOFError m (r + length data + length (concat (incoming w1)))), w')"
      by blast
    have step: "recvall_loop m r buffer w =
                  recvall_loop m (r + length data) (write_at buffer r data) w1"
      using \<open>r < m\<close> rv False by simp
    from step res post dl show ?thesis by simp
  qed
qed

lemma recvall_loop_world:
  "recvall_loop m r buffer w = (res, w') \<Longrightarrow> sent w' = sent w \<and> warnings w' = warnings w"
proof (induction m r buffer w rule: recvall_loop.induct)
  case (1 m r buffer w)
  show ?case
  proof (cases "r < m")
    case False
    with "1.prems" show ?thesis by simp
  next
    case True
    obtain data w1 where rv: "recv_into (m - r) w = (data, w1)" by force
    from recv_into_world[OF rv] have sw: "sent w1 = sent w" "warnings w1 = warnings w" by simp_all
    show ?thesis
    proof (cases "length data = 0")
      case True
      with "1.prems" \<open>r < m\<close> rv sw show ?thesis by simp
    next
      case False
      with "1.prems" \<open>r < m\<close> rv
      have "recvall_loop m (r + length data) (write_at buffer r data) w1 = (res, w')" by simp
      from "1.IH"[OF \<open>r < m\<close> rv[symmetric] False this] sw show ?thesis by simp
    qed
  qed
qed

lemma recvall_world:
  "recvall n w = (res, w') \<Longrightarrow> sent w' = sent w \<and> warnings w' = warnings w"
  unfolding recvall_def by (rule recvall_loop_world)

lemma recv_world:
  "recv n w = (data, w') \<Longrightarrow> sent w' = sent w \<and> warnings w' = warnings w"
  by (auto simp: recv_def split: prod.splits)

section \<open>The loop over the hit records\<close>

declare deserialize_hits.simps [simp del]

lemma deserialize_hits_step:
  "i < n \<Longrightarrow>
   deserialize_hits env data start t n i off th w =
     (case deserialize_hit env data start t i off th w of
        (Inl e, w1) \<Rightarrow> (Inl e, w1)
      | (Inr (off', th'), w1) \<Rightarrow> deserialize_hits env data start t n (i + 1) off' th' w1)"
  by (subst deserialize_hits.simps) simp

lemma deserialize_hits_done:
  "\<not> i < n \<Longrightarrow> deserialize_hits env data start t n i off th w = (Inr (off, th), w)"
  by (subst deserialize_hits.simps) simp

lemma deserialize_hit_world:
  "snd (deserialize_hit env data start t i off th w) =
     (if ucast (off - start) \<noteq> t i
      then warn (HitOffsetWarning i (t i) (off - start)) w else w)"
  by (simp add: deserialize_hit_def Let_def split: prod.splits)

lemma deserialize_hit_outcome:
  "fst (deserialize_hit env data start t1 i off th w1) =
   fst (deserialize_hit env data start t2 i off th w2)"
  by (simp add: deserialize_hit_def Let_def split: prod.splits)

lemma deserialize_hit_Inr:
  assumes "deserialize_hit env data start t i off th w = (Inr (off', th'), w')"
    and "i < length (th_unsrt th)"
  shows "\<exists>h. p7_hit_Deserialize env data off (clear_pointers (th_unsrt th ! i)) = (eslOK, off', h)
            \<and> th' = th\<lparr>th_unsrt := (th_unsrt th)[i := h], th_hit := (th_hit th)[i := i]\<rparr>"
  using assms
  by (auto simp: deserialize_hit_def Let_def split: prod.splits if_splits)

lemma deserialize_hit_eq:
  assumes "i < length (th_unsrt th)"
    and "p7_hit_Deserialize env data off (clear_pointers (th_unsrt th ! i)) = (st, off', h)"
  shows "deserialize_hit env data start t i off th w =
     (if st \<noteq> eslOK then Inl (UnexpectedError st ''p7_hit_Deserialize'')
      else Inr (off', th\<lparr>th_unsrt := (th_unsrt th)[i := h], th_hit := (th_hit th)[i := i]\<rparr>),
      w\<lparr>warnings := warnings w @
          (if ucast (off - start) \<noteq> t i
           then [HitOffsetWarning i (t i) (off - start)] else [])\<rparr>)"
  using assms by (simp add: deserialize_hit_def Let_def warn_def)

lemma deserialize_hits_outcome:
  "fst (deserialize_hits env data start t1 n i off th w1) =
   fst (deserialize_hits env data start t2 n i off th w2)"
proof (induction "n - i" arbitrary: i off th w1 w2)
  case 0
  then have "\<not> i < n" by simp
  then show ?case by (simp add: deserialize_hits_done)
next
  case (Suc k)
  then have lt: "i < n" and k: "k = n - (i + 1)" by simp_all
  obtain r1 v1 where s1: "deserialize_hit env data start t1 i off th w1 = (r1, v1)" by force
  obtain r2 v2 where s2: "deserialize_hit env data start t2 i off th w2 = (r2, v2)" by force
  from deserialize_hit_outcome[of env data start t1 i off th w1 t2 w2] s1 s2
  have eq: "r1 = r2" by simp
  show ?case
  proof (cases r1)
    case (Inl e)
    have "deserialize_hit env data start t1 i off th w1 = (Inl e, v1)"
      and "deserialize_hit env data start t2 i off th w2 = (Inl e, v2)"
      using Inl eq s1 s2 by simp_all
    with lt show ?thesis by (simp add: deserialize_hits_step)
  next
    case (Inr p)
    obtain off1 th1 where p: "p = (off1, th1)" by force
    have "deserialize_hit env data start t1 i off th w1 = (Inr (off1, th1), v1)"
      and "deserialize_hit env data start t2 i off th w2 = (Inr (off1, th1), v2)"
      using Inr p eq s1 s2 by simp_all
    with Suc.hyps(1)[OF k, of off1 th1 v1 v2] lt
    show ?thesis by (simp add: deserialize_hits_step)
  qed
qed

lemma deserialize_hits_world:
  "\<exists>ws. snd (deserialize_hits env data start t n i off th w) = w\<lparr>warnings := warnings w @ ws\<rparr>"
proof (induction "n - i" arbitrary: i off th w)
  case 0
  then have "\<not> i < n" by simp
  then have "snd (deserialize_hits env data start t n i off th w) = w\<lparr>warnings := warnings w @ []\<rparr>"
    by (simp add: deserialize_hits_done)
  then show ?case by blast
next
  case (Suc k)
  then have lt: "i < n" and k: "k = n - (i + 1)" by simp_all
  obtain r1 v1 where s1: "deserialize_hit env data start t i off th w = (r1, v1)" by force
  have "snd (deserialize_hit env data start t i off th w) =
          w\<lparr>warnings := warnings w @
            (if ucast (off - start) \<noteq> t i
             then [HitOffsetWarning i (t i) (off - start)] else [])\<rparr>"
    by (simp add: deserialize_hit_world warn_def)
  with s1 have v1: "\<exists>ws. v1 = w\<lparr>warnings := warnings w @ ws\<rparr>"
    by (metis snd_conv)
  then obtain ws1 where ws1: "v1 = w\<lparr>warnings := warnings w @ ws1\<rparr>" by blast
  show ?case
  proof (cases r1)
    case (Inl e)
    with s1 lt v1 show ?thesis by (simp add: deserialize_hits_step)
  next
    case (Inr p)
    obtain off1 th1 where p: "p = (off1, th1)" by force
    from Suc.hyps(1)[OF k, of off1 th1 v1]
    obtain ws where "snd (deserialize_hits env data start t n (i + 1) off1 th1 v1) =
                       v1\<lparr>warnings := warnings v1 @ ws\<rparr>" by blast
    with ws1 have "snd (deserialize_hits env data start t n (i + 1) off1 th1 v1) =
                       w\<lparr>warnings := warnings w @ (ws1 @ ws)\<rparr>" by simp
    with Inr p s1 lt show ?thesis by (auto simp: deserialize_hits_step)
  qed
qed

lemma decode_records_length:
  "decode_records env data off cells = Some (hs, off') \<Longrightarrow> length hs = length cells"
  by (induction cells arbitrary: off hs)
     (auto split: prod.splits if_splits option.splits)

lemma deserialize_hits_Inr:
  assumes "deserialize_hits env data start t n i off th w = (Inr (off', th'), w')"
    and "n \<le> length (th_unsrt th)" and "n \<le> length (th_hit th)" and "i \<le> n"
  shows "\<exists>hs. decode_records env data off (take (n - i) (drop i (th_unsrt th))) = Some (hs, off')
           \<and> th' = th\<lparr>th_unsrt := take i (th_unsrt th) @ hs @ drop n (th_unsrt th),
                     th_hit := take i (th_hit th) @ [i..<n] @ drop n (th_hit th)\<rparr>"
  using assms
proof (induction "n - i" arbitrary: i off th w)
  case 0
  then have "i = n" by simp
  with 0 show ?case by (simp add: deserialize_hits_done)
next
  case (Suc k)
  then have lt: "i < n" and k: "k = n - (i + 1)" by simp_all
  let ?U = "th_unsrt th" and ?H = "th_hit th"
  from lt Suc.prems have iU: "i < length ?U" and iH: "i < length ?H" by simp_all
  obtain r1 v1 where s1: "deserialize_hit env data start t i off th w = (r1, v1)" by force
  from Suc.prems(1) lt s1 obtain off1 th1 where r1: "r1 = Inr (off1, th1)"
    and rec: "deserialize_hits env data start t n (i + 1) off1 th1 v1 = (Inr (off', th'), w')"
    by (auto simp: deserialize_hits_step split: sum.splits)
  from deserialize_hit_Inr[OF s1[unfolded r1] iU]
  obtain h where h: "p7_hit_Deserialize env data off (clear_pointers (?U ! i)) = (eslOK, off1, h)"
    and th1: "th1 = th\<lparr>th_unsrt := ?U[i := h], th_hit := ?H[i := i]\<rparr>" by blast
  have l1: "n \<le> length (th_unsrt th1)" "n \<le> length (th_hit th1)" "i + 1 \<le> n"
    using Suc.prems lt th1 by simp_all
  from Suc.hyps(1)[OF k rec l1]
  obtain hs where
    d: "decode_records env data off1 (take (n - (i + 1)) (drop (i + 1) (th_unsrt th1))) =
          Some (hs, off')"
    and t': "th' = th1\<lparr>th_unsrt := take (i + 1) (th_unsrt th1) @ hs @ drop n (th_unsrt th1),
                       th_hit := take (i + 1) (th_hit th1) @ [i + 1..<n] @ drop n (th_hit th1)\<rparr>"
    by blast
  have a1: "drop (i + 1) (th_unsrt th1) = drop (i + 1) ?U" using th1 by simp
  have a2: "take (i + 1) (th_unsrt th1) = take i ?U @ [h]"
    using th1 iU by (simp add: take_Suc_conv_app_nth)
  have a3: "drop n (th_unsrt th1) = drop n ?U" using th1 lt by simp
  have b2: "take (i + 1) (th_hit th1) = take i ?H @ [i]"
    using th1 iH by (simp add: take_Suc_conv_app_nth)
  have b3: "drop n (th_hit th1) = drop n ?H" using th1 lt by simp
  have c: "take (n - i) (drop i ?U) = (?U ! i) # take (n - (i + 1)) (drop (i + 1) ?U)"
  proof -
    have "drop i ?U = (?U ! i) # drop (Suc i) ?U" using iU by (simp add: Cons_nth_drop_Suc)
    moreover have "n - i = Suc (n - (i + 1))" using lt by simp
    ultimately show ?thesis by simp
  qed
  have u: "[i..<n] = i # [i + 1..<n]" using lt by (simp add: upt_conv_Cons)
  have "decode_records env data off (take (n - i) (drop i ?U)) = Some (h # hs, off')"
    using c h d a1 by simp
  moreover have "th' = th\<lparr>th_unsrt := take i ?U @ (h # hs) @ drop n ?U,
                          th_hit := take i ?H @ [i..<n] @ drop n ?H\<rparr>"
    using t' a2 a3 b2 b3 u th1 by simp
  ultimately show ?case by blast
qed

lemma deserialize_hits_warnings:
  assumes "n \<le> length (th_unsrt th)" and "i \<le> n"
  shows "warnings (snd (deserialize_hits env data start t n i off th w)) =
           warnings w @ mismatch_warnings start t i
             (hit_cursors env data off (take (n - i) (drop i (th_unsrt th))))"
  using assms
proof (induction "n - i" arbitrary: i off th w)
  case 0
  then have "i = n" by simp
  then show ?case by (simp add: deserialize_hits_done)
next
  case (Suc k)
  then have lt: "i < n" and k: "k = n - (i + 1)" by simp_all
  let ?U = "th_unsrt th"
  from lt Suc.prems have iU: "i < length ?U" by simp
  obtain st off1 h where
    h: "p7_hit_Deserialize env data off (clear_pointers (?U ! i)) = (st, off1, h)"
    using prod_cases3 by blast
  note step = deserialize_hit_eq[OF iU h, of start t w]
  have c: "take (n - i) (drop i ?U) = (?U ! i) # take (n - (i + 1)) (drop (i + 1) ?U)"
  proof -
    have "drop i ?U = (?U ! i) # drop (Suc i) ?U" using iU by (simp add: Cons_nth_drop_Suc)
    moreover have "n - i = Suc (n - (i + 1))" using lt by simp
    ultimately show ?thesis by simp
  qed
  show ?case
  proof (cases "st = eslOK")
    case False
    with step lt c h show ?thesis by (simp add: deserialize_hits_step)
  next
    case True
    let ?th1 = "th\<lparr>th_unsrt := ?U[i := h], th_hit := (th_hit th)[i := i]\<rparr>"
    let ?w1 = "w\<lparr>warnings := warnings w @
          (if ucast (off - start) \<noteq> t i
           then [HitOffsetWarning i (t i) (off - start)] else [])\<rparr>"
    have l1: "n \<le> length (th_unsrt ?th1)" "i + 1 \<le> n" using Suc.prems lt by simp_all
    have a1: "drop (i + 1) (th_unsrt ?th1) = drop (i + 1) ?U" by simp
    from Suc.hyps(1)[OF k l1, of off1 ?w1] a1
    have ih: "warnings (snd (deserialize_hits env data start t n (i + 1) off1 ?th1 ?w1)) =
           warnings ?w1 @ mismatch_warnings start t (i + 1)
             (hit_cursors env data off1 (take (n - (i + 1)) (drop (i + 1) ?U)))"
      by simp
    have "deserialize_hits env data start t n i off th w =
            deserialize_hits env data start t n (i + 1) off1 ?th1 ?w1"
      using step True lt by (simp add: deserialize_hits_step)
    with ih c h True show ?thesis by simp
  qed
qed

section \<open>Decoding a payload\<close>

lemma realloc_length: "realloc ok fresh xs n = Some ys \<Longrightarrow> length ys = n"
  by (auto simp: realloc_def split: if_splits)

lemma reallocate_Inr:
  assumes "reallocate env nhits th = Inr th'"
  shows "\<exists>U H. th' = th\<lparr>th_unsrt := U, th_hit := H\<rparr>
           \<and> unat nhits \<le> length U \<and> unat nhits \<le> length H"
proof (cases "0 < nhits")
  case True
  with assms obtain U H where
    U: "realloc (realloc_unsrt_ok env nhits) (fresh_unsrt env) (th_unsrt th) (unat nhits) = Some U"
    and H: "realloc (realloc_hit_ok env nhits) (fresh_hit env) (th_hit th) (unat nhits) = Some H"
    and th': "th' = th\<lparr>th_unsrt := U, th_hit := H\<rparr>"
    by (auto simp: reallocate_def split: option.splits)
  from realloc_length[OF U] realloc_length[OF H] th'
  have "th' = th\<lparr>th_unsrt := U, th_hit := H\<rparr> \<and> unat nhits \<le> length U \<and> unat nhits \<le> length H"
    by simp
  then show ?thesis by (intro exI)
next
  case False
  then have z: "nhits = 0" by (simp add: word_gt_0)
  with assms have "th' = th" by (simp add: reallocate_def)
  with z have "th' = th\<lparr>th_unsrt := th_unsrt th, th_hit := th_hit th\<rparr>
      \<and> unat nhits \<le> length (th_unsrt th) \<and> unat nhits \<le> length (th_hit th)" by simp
  then show ?thesis by (intro exI)
qed

lemma decode_response_ok:
  assumes "p7_hmmd_search_stats_Deserialize env response 0 = (eslOK, off, stats)"
    and "reallocate env (stats_nhits stats) (TopHits_th (copy_stats mode pli stats hits0)) = Inr th"
    and "deserialize_hits env response off (stats_hit_offsets stats) (unat (stats_nhits stats))
           0 off th w = (Inr (off', th'), w')"
  shows "decode_response env pli mode hits0 response w =
           (Inr ((copy_stats mode pli stats hits0)\<lparr>TopHits_th := th'\<rparr>), w')"
  using assms by (simp add: decode_response_def Let_def)

lemma decode_response_cases:
  assumes "decode_response env pli mode hits0 response w = (Inr hits, w')"
  shows "\<exists>off stats th off' th'.
      p7_hmmd_search_stats_Deserialize env response 0 = (eslOK, off, stats)
    \<and> reallocate env (stats_nhits stats) (TopHits_th (copy_stats mode pli stats hits0)) = Inr th
    \<and> deserialize_hits env response off (stats_hit_offsets stats) (unat (stats_nhits stats))
           0 off th w = (Inr (off', th'), w')
    \<and> hits = (copy_stats mode pli stats hits0)\<lparr>TopHits_th := th'\<rparr>"
proof -
  obtain st off stats where ds: "p7_hmmd_search_stats_Deserialize env response 0 = (st, off, stats)"
    using prod_cases3 by blast
  show ?thesis
  proof (cases "st = eslOK")
    case False
    with assms ds show ?thesis by (simp add: decode_response_def)
  next
    case True
    note ok = this
    show ?thesis
    proof (cases "reallocate env (stats_nhits stats) (TopHits_th (copy_stats mode pli stats hits0))")
      case (Inl e)
      with assms ds ok show ?thesis by (simp add: decode_response_def Let_def)
    next
      case (Inr th)
      obtain r w1 where loop: "deserialize_hits env response off (stats_hit_offsets stats)
           (unat (stats_nhits stats)) 0 off th w = (r, w1)" by force
      show ?thesis
      proof (cases r)
        case (Inl e)
        with assms ds ok Inr loop show ?thesis by (simp add: decode_response_def Let_def)
      next
        case (Inr p)
        obtain off' th' where p: "p = (off', th')" by force
        from assms ds ok \<open>reallocate env (stats_nhits stats) (TopHits_th (copy_stats mode pli stats hits0)) = Inr th\<close>
          loop Inr p
        have "hits = (copy_stats mode pli stats hits0)\<lparr>TopHits_th := th'\<rparr>" and "w1 = w'"
          by (simp_all add: decode_response_def Let_def)
        with ds ok \<open>reallocate env (stats_nhits stats) (TopHits_th (copy_stats mode pli stats hits0)) = Inr th\<close>
          loop Inr p
        have "p7_hmmd_search_stats_Deserialize env response 0 = (eslOK, off, stats)
    \<and> reallocate env (stats_nhits stats) (TopHits_th (copy_stats mode pli stats hits0)) = Inr th
    \<and> deserialize_hits env response off (stats_hit_offsets stats) (unat (stats_nhits stats))
           0 off th w = (Inr (off', th'), w')
    \<and> hits = (copy_stats mode pli stats hits0)\<lparr>TopHits_th := th'\<rparr>" by simp
        then show ?thesis by (intro exI)
      qed
    qed
  qed
qed

lemma decode_response_Inr:
  assumes "decode_response env pli mode hits0 response w = (Inr hits, w')"
  shows "\<exists>off stats U H hs off'.
           p7_hmmd_search_stats_Deserialize env response 0 = (eslOK, off, stats)
         \<and> unat (stats_nhits stats) \<le> length U
         \<and> decode_records env response off (take (unat (stats_nhits stats)) U) = Some (hs, off')
         \<and> TopHits_th hits = (TopHits_th (copy_stats mode pli stats hits0))
                \<lparr>th_unsrt := hs @ drop (unat (stats_nhits stats)) U,
                 th_hit := [0..<unat (stats_nhits stats)] @ drop (unat (stats_nhits stats)) H\<rparr>"
proof -
  from decode_response_cases[OF assms] obtain off stats th off' th' where
    ds: "p7_hmmd_search_stats_Deserialize env response 0 = (eslOK, off, stats)"
    and ra: "reallocate env (stats_nhits stats) (TopHits_th (copy_stats mode pli stats hits0)) = Inr th"
    and loop: "deserialize_hits env response off (stats_hit_offsets stats) (unat (stats_nhits stats))
           0 off th w = (Inr (off', th'), w')"
    and hits: "hits = (copy_stats mode pli stats hits0)\<lparr>TopHits_th := th'\<rparr>"
    by blast
  let ?n = "unat (stats_nhits stats)"
  let ?th1 = "TopHits_th (copy_stats mode pli stats hits0)"
  from reallocate_Inr[OF ra] obtain U H where
    th: "th = ?th1\<lparr>th_unsrt := U, th_hit := H\<rparr>"
    and lU: "?n \<le> length U" and lH: "?n \<le> length H" by blast
  from th lU lH have l: "?n \<le> length (th_unsrt th)" "?n \<le> length (th_hit th)" by simp_all
  from deserialize_hits_Inr[OF loop l] obtain hs where
    d: "decode_records env response off (take (?n - 0) (drop 0 (th_unsrt th))) = Some (hs, off')"
    and t': "th' = th\<lparr>th_unsrt := take 0 (th_unsrt th) @ hs @ drop ?n (th_unsrt th),
                       th_hit := take 0 (th_hit th) @ [0..<?n] @ drop ?n (th_hit th)\<rparr>"
    by auto
  from d th have d': "decode_records env response off (take ?n U) = Some (hs, off')" by simp
  from t' th have "th' = ?th1\<lparr>th_unsrt := hs @ drop ?n U, th_hit := [0..<?n] @ drop ?n H\<rparr>"
    by simp
  with hits have "TopHits_th hits = ?th1\<lparr>th_unsrt := hs @ drop ?n U, th_hit := [0..<?n] @ drop ?n H\<rparr>"
    by simp
  with ds lU d' have "p7_hmmd_search_stats_Deserialize env response 0 = (eslOK, off, stats)
         \<and> ?n \<le> length U
         \<and> decode_records env response off (take ?n U) = Some (hs, off')
         \<and> TopHits_th hits = ?th1\<lparr>th_unsrt := hs @ drop ?n U, th_hit := [0..<?n] @ drop ?n H\<rparr>"
    by simp
  then show ?thesis by (intro exI)
qed

lemma copy_stats_th:
  "th_N (TopHits_th (copy_stats mode pli stats hits0)) = stats_nhits stats"
  "th_is_sorted_by_sortkey (TopHits_th (copy_stats mode pli stats hits0))"
  "\<not> th_is_sorted_by_seqidx (TopHits_th (copy_stats mode pli stats hits0))"
  by (simp_all add: copy_stats_def)

lemma decode_response_loop:
  assumes "p7_hmmd_search_stats_Deserialize env response 0 = (eslOK, off, stats)"
    and "reallocate env (stats_nhits stats) (TopHits_th (copy_stats mode pli stats hits0)) = Inr th"
    and "deserialize_hits env response off (stats_hit_offsets stats) (unat (stats_nhits stats))
             0 off th w = (r, w1)"
  shows "decode_response env pli mode hits0 response w =
          (map_sum id (\<lambda>(off', th'). (copy_stats mode pli stats hits0)\<lparr>TopHits_th := th'\<rparr>) r, w1)"
proof (cases r)
  case (Inl e)
  with assms show ?thesis by (simp add: decode_response_def Let_def)
next
  case (Inr p)
  obtain off' th' where "p = (off', th')" by force
  with Inr assms show ?thesis by (simp add: decode_response_def Let_def)
qed

lemma decode_response_sent:
  "sent (snd (decode_response env pli mode hits0 response w)) = sent w"
proof -
  obtain st off stats where ds: "p7_hmmd_search_stats_Deserialize env response 0 = (st, off, stats)"
    using prod_cases3 by blast
  show ?thesis
  proof (cases "st = eslOK")
    case False
    with ds show ?thesis by (simp add: decode_response_def)
  next
    case True
    show ?thesis
    proof (cases "reallocate env (stats_nhits stats) (TopHits_th (copy_stats mode pli stats hits0))")
      case (Inl e)
      with ds True show ?thesis by (simp add: decode_response_def Let_def)
    next
      case (Inr th)
      obtain r w1 where loop: "deserialize_hits env response off (stats_hit_offsets stats)
           (unat (stats_nhits stats)) 0 off th w = (r, w1)" by force
      from deserialize_hits_world[of env response off "stats_hit_offsets stats"
             "unat (stats_nhits stats)" 0 off th w] loop
      have s: "sent w1 = sent w" by auto
      from ds True Inr loop have "snd (decode_response env pli mode hits0 response w) = w1"
        by (cases r) (auto simp: decode_response_def Let_def split: prod.splits)
      with s show ?thesis by simp
    qed
  qed
qed

section \<open>The whole exchange\<close>

lemma receive_response_cases:
  obtains (eof) e w2 where
      "recvall (HMMD_SEARCH_STATUS_SERIAL_SIZE env) w = (Inl e, w2)"
      "receive_response env pli mode hits0 w = (Inl e, w2)"
  | (bad_status) response w2 st off ss where
      "recvall (HMMD_SEARCH_STATUS_SERIAL_SIZE env) w = (Inr response, w2)"
      "hmmd_search_status_Deserialize env response 0 = (st, off, ss)" "st \<noteq> eslOK"
      "receive_response env pli mode hits0 w =
         (Inl (UnexpectedError st ''hmmd_search_status_Deserialize''), w2)"
  | (server_error) response w2 off ss err w3 where
      "recvall (HMMD_SEARCH_STATUS_SERIAL_SIZE env) w = (Inr response, w2)"
      "hmmd_search_status_Deserialize env response 0 = (eslOK, off, ss)" "status ss \<noteq> 0"
      "recv (unat (msg_size ss)) w2 = (err, w3)"
      "receive_response env pli mode hits0 w =
         (Inl (ServerError (status ss) (decode_utf8_replace env err)), w3)"
  | (short_payload) response w2 off ss e w3 where
      "recvall (HMMD_SEARCH_STATUS_SERIAL_SIZE env) w = (Inr response, w2)"
      "hmmd_search_status_Deserialize env response 0 = (eslOK, off, ss)" "status ss = 0"
      "recvall (unat (msg_size ss)) w2 = (Inl e, w3)"
      "receive_response env pli mode hits0 w = (Inl e, w3)"
  | (payload) response w2 off ss payload w3 where
      "recvall (HMMD_SEARCH_STATUS_SERIAL_SIZE env) w = (Inr response, w2)"
      "hmmd_search_status_Deserialize env response 0 = (eslOK, off, ss)" "status ss = 0"
      "recvall (unat (msg_size ss)) w2 = (Inr payload, w3)"
      "receive_response env pli mode hits0 w = decode_response env pli mode hits0 payload w3"
proof -
  obtain r w2 where h: "recvall (HMMD_SEARCH_STATUS_SERIAL_SIZE env) w = (r, w2)" by force
  show ?thesis
  proof (cases r)
    case (Inl e)
    with h have "receive_response env pli mode hits0 w = (Inl e, w2)"
      by (simp add: receive_response_def)
    with h Inl show ?thesis using eof by simp
  next
    case (Inr response)
    obtain st off ss where d: "hmmd_search_status_Deserialize env response 0 = (st, off, ss)"
      using prod_cases3 by blast
    show ?thesis
    proof (cases "st = eslOK")
      case False
      with h Inr d have "receive_response env pli mode hits0 w =
         (Inl (UnexpectedError st ''hmmd_search_status_Deserialize''), w2)"
        by (simp add: receive_response_def)
      with h Inr d False show ?thesis using bad_status by simp
    next
      case True
      show ?thesis
      proof (cases "status ss = 0")
        case False
        obtain err w3 where rv: "recv (unat (msg_size ss)) w2 = (err, w3)" by force
        with h Inr d True False have "receive_response env pli mode hits0 w =
         (Inl (ServerError (status ss) (decode_utf8_replace env err)), w3)"
          by (simp add: receive_response_def)
        with h Inr d True False rv show ?thesis using server_error by simp
      next
        case z: True
        obtain r2 w3 where p: "recvall (unat (msg_size ss)) w2 = (r2, w3)" by force
        show ?thesis
        proof (cases r2)
          case (Inl e)
          with h Inr d True z p have "receive_response env pli mode hits0 w = (Inl e, w3)"
            by (simp add: receive_response_def)
          with h Inr d True z p Inl show ?thesis using short_payload by simp
        next
          case r2: (Inr payload)
          with h Inr d True z p have "receive_response env pli mode hits0 w =
              decode_response env pli mode hits0 payload w3"
            by (simp add: receive_response_def)
          with h Inr d True z p r2 show ?thesis using payload by simp
        qed
      qed
    qed
  qed
qed

lemma receive_response_sent:
  "sent (snd (receive_response env pli mode hits0 w)) = sent w"
proof (cases rule: receive_response_cases[of env w pli mode hits0])
  case (eof e w2)
  with recvall_world[OF eof(1)] show ?thesis by simp
next
  case (bad_status response w2 st off ss)
  with recvall_world[OF bad_status(1)] show ?thesis by simp
next
  case (server_error response w2 off ss err w3)
  with recvall_world[OF server_error(1)] recv_world[OF server_error(4)] show ?thesis by simp
next
  case (short_payload response w2 off ss e w3)
  with recvall_world[OF short_payload(1)] recvall_world[OF short_payload(4)] show ?thesis by simp
next
  case (payload response w2 off ss payload w3)
  with recvall_world[OF payload(1)] recvall_world[OF payload(4)]
    decode_response_sent[of env pli mode hits0 payload w3]
  show ?thesis by simp
qed

lemma receive_response_Inr:
  assumes "receive_response env pli mode hits0 w = (Inr hits, w')"
  shows "\<exists>payload w3. decode_response env pli mode hits0 payload w3 = (Inr hits, w')"
proof (cases rule: receive_response_cases[of env w pli mode hits0])
  case (payload response w2 off ss payload w3)
  with assms have "decode_response env pli mode hits0 payload w3 = (Inr hits, w')" by simp
  then show ?thesis by (intro exI)
qed (use assms in simp_all)

lemma client_Inr:
  assumes "client env query db ranges pli mode w = (Inr hits, w')"
  shows "\<exists>payload w3. decode_response env pli mode (TopHits_new env) payload w3 = (Inr hits, w')"
proof -
  from assms obtain w1 where
    "receive_response env pli mode (TopHits_new env) w1 = (Inr hits, w')"
    by (auto simp: client_def Let_def split: sum.splits)
  from receive_response_Inr[OF this] show ?thesis .
qed

section \<open>Runs on the miniature format\<close>

lemmas mini_defs =
  mini_libs_def mini_status_def mini_stats_def mini_hit_def mini_cell_def mini_pipeline_def
  mini_query_def mini_pli_def zero_stats_def peer_def mini_result_def

lemmas run_defs =
  client_def receive_response_def decode_response_def reallocate_def realloc_def copy_stats_def
  deserialize_hit_def clear_pointers_def warn_def recvall_def recv_into_def recv_def
  write_at_def sendall_def check_ranges_def all_int_pairs_def request_line_def format_range_def
  str_int_def digit_def encode_ascii_def eslOK_def

lemma recvall_run_1: "recvall 5 (peer [[1, 2], [3], [4, 5, 6]]) = (Inr [1, 2, 3, 4, 5], peer [[6]])"
  by (simp add: recvall_def peer_def recv_into_def write_at_def)

lemma recvall_run_2: "recvall 5 (peer [[1, 2], [3]]) = (Inl (EOFError 5 3), peer [])"
  by (simp add: recvall_def peer_def recv_into_def write_at_def)

lemma mini_decode:
  "decode_response mini_libs mini_pli p7_SEARCH_SEQS (TopHits_new mini_libs) [2, 0, 5, 7, 9] (peer [])
    = (Inr mini_result, \<lparr>sent = [], incoming = [], warnings = [HitOffsetWarning 1 5 1]\<rparr>)"
  by (simp add: mini_defs run_defs deserialize_hits.simps Let_def upt_conv_Cons)

lemma mini_run:
  "client mini_libs mini_query 1 (Some [PyTuple [PyInt 1, PyInt 2]]) mini_pli p7_SEARCH_SEQS
     (peer [[0, 5], [2, 0, 5], [7, 9]])
    = (Inr mini_result,
       \<lparr>sent = [map of_char ''@--seqdb 1 --seqdb_ranges 1..2 \<newline>'', [81], map of_char ''//''],
        incoming = [], warnings = [HitOffsetWarning 1 5 1]\<rparr>)"
  by (simp add: mini_defs run_defs deserialize_hits.simps Let_def upt_conv_Cons)

lemma mini_request:
  "check_ranges (Some [PyTuple [PyInt 1, PyInt 2]]) = Inr ()"
  "encode_ascii (request_line p7_SEARCH_SEQS 1 (Some [PyTuple [PyInt 1, PyInt 2]])
       (concat (arguments mini_pli))) = Inr (map of_char ''@--seqdb 1 --seqdb_ranges 1..2 \<newline>'')"
  by (simp_all add: mini_defs run_defs)

lemma mini_block_run:
  "p7_hmmd_search_stats_Deserialize mini_libs [2, 0, 5, 7, 9] 0 = (eslOK, 3, mini_block)"
  by (simp add: mini_block_def mini_libs_def mini_stats_def eslOK_def)

lemma mini_block_fields:
  "stats_nhits mini_block = 2" "stats_hit_offsets mini_block 0 = 0"
  "stats_hit_offsets mini_block 1 = 5" "stats_hit_offsets mini_block (Suc 0) = 5"
  "stats_nreported mini_block = 0"
  "stats_nincluded mini_block = 0"
  by (simp_all add: mini_block_def mini_stats_def zero_stats_def)

lemma mini_cells_run:
  "reallocate mini_libs (stats_nhits mini_block)
     (TopHits_th (copy_stats p7_SEARCH_SEQS mini_pli mini_block (TopHits_new mini_libs))) = Inr mini_cells"
  by (simp add: mini_block_fields reallocate_def realloc_def copy_stats_def mini_libs_def
        mini_cells_def upt_conv_Cons)

section \<open>Properties of the client\<close>

text \<open>
  Claim C1 says that a call that supplies no \<open>ranges\<close> (the default \<open>None\<close> of the search
  methods, and every \<^verbatim>\<open>scan_seq\<close> call) passes the validation and goes on to send the
  request. The code does not do this: with \<open>ranges = None\<close> the first test is false and the
  second one iterates over \<open>None\<close>. Every such call raises \<open>TypeError\<close> and leaves the
  socket untouched.
\<close>

theorem ranges_None_raises_TypeError:
  "scan_seq env query db pli w = (Inl (TypeError ''NoneType object is not iterable''), w)
   \<and> search_seq env query db None pli w = (Inl (TypeError ''NoneType object is not iterable''), w)
   \<and> search_msa env query db None pli w = (Inl (TypeError ''NoneType object is not iterable''), w)
   \<and> search_hmm env query db None pli w = (Inl (TypeError ''NoneType object is not iterable''), w)"
  by (simp add: scan_seq_def search_seq_def search_msa_def search_hmm_def client_def
        check_ranges_def)

text \<open>
  Claim C2: whenever a Statistics+Hits payload is decoded successfully, the stored count
  \<open>N\<close> of the returned hit list is the \<open>nhits\<close> of the statistics block decoded at the
  start of the payload, the list holds exactly that many records, and these records are
  the result of decoding \<open>nhits\<close> hit records one after the other from the cursor where the
  statistics block ends.
\<close>

theorem decode_hit_count:
  assumes "decode_response env pli mode hits0 response w = (Inr hits, w')"
  shows "\<exists>off stats cells off'.
           p7_hmmd_search_stats_Deserialize env response 0 = (eslOK, off, stats)
         \<and> th_N (TopHits_th hits) = stats_nhits stats
         \<and> length (hit_records (TopHits_th hits)) = unat (stats_nhits stats)
         \<and> length cells = unat (stats_nhits stats)
         \<and> decode_records env response off cells = Some (hit_records (TopHits_th hits), off')"
proof -
  from decode_response_Inr[OF assms] obtain off stats U H hs off' where
    ds: "p7_hmmd_search_stats_Deserialize env response 0 = (eslOK, off, stats)"
    and lU: "unat (stats_nhits stats) \<le> length U"
    and d: "decode_records env response off (take (unat (stats_nhits stats)) U) = Some (hs, off')"
    and th: "TopHits_th hits = (TopHits_th (copy_stats mode pli stats hits0))
                \<lparr>th_unsrt := hs @ drop (unat (stats_nhits stats)) U,
                 th_hit := [0..<unat (stats_nhits stats)] @ drop (unat (stats_nhits stats)) H\<rparr>"
    by blast
  from decode_records_length[OF d] lU have lh: "length hs = unat (stats_nhits stats)" by simp
  from th have N: "th_N (TopHits_th hits) = stats_nhits stats" by (simp add: copy_stats_th)
  from th N lh have r: "hit_records (TopHits_th hits) = hs" by (simp add: hit_records_def)
  have lc: "length (take (unat (stats_nhits stats)) U) = unat (stats_nhits stats)" using lU by simp
  from ds N r lh lc d
  have "p7_hmmd_search_stats_Deserialize env response 0 = (eslOK, off, stats)
         \<and> th_N (TopHits_th hits) = stats_nhits stats
         \<and> length (hit_records (TopHits_th hits)) = unat (stats_nhits stats)
         \<and> length (take (unat (stats_nhits stats)) U) = unat (stats_nhits stats)
         \<and> decode_records env response off (take (unat (stats_nhits stats)) U)
             = Some (hit_records (TopHits_th hits), off')"
    by simp
  then show ?thesis by (intro exI)
qed

theorem decode_hit_count_witness:
  "decode_response mini_libs mini_pli p7_SEARCH_SEQS (TopHits_new mini_libs) [2, 0, 5, 7, 9] (peer [])
     = (Inr mini_result, \<lparr>sent = [], incoming = [], warnings = [HitOffsetWarning 1 5 1]\<rparr>)
   \<and> th_N (TopHits_th mini_result) = 2
   \<and> length (hit_records (TopHits_th mini_result)) = 2"
  using mini_decode decode_hit_count[OF mini_decode]
  by (simp add: mini_result_def hit_records_def)

text \<open>
  Claim C3: for every \<open>n\<close> and every sequence of fragments, \<^verbatim>\<open>_recvall\<close> returns the first
  \<open>n\<close> delivered bytes (and leaves the others in the stream) when the fragments hold at
  least \<open>n\<close> bytes; when the peer closes after delivering \<open>k < n\<close> bytes it raises
  \<open>EOFError\<close> (reporting \<open>n\<close> and \<open>k\<close>); and a buffer it returns always has \<open>n\<close> bytes.
\<close>

theorem recvall_exact:
  "(n \<le> length (concat (incoming w)) \<longrightarrow>
      (\<exists>w'. recvall n w = (Inr (take n (concat (incoming w))), w')
           \<and> concat (incoming w') = drop n (concat (incoming w))))
   \<and> (length (concat (incoming w)) < n \<longrightarrow>
      (\<exists>w'. recvall n w = (Inl (EOFError n (length (concat (incoming w)))), w')))
   \<and> (\<forall>buf w'. recvall n w = (Inr buf, w') \<longrightarrow> length buf = n)"
proof (intro conjI impI allI)
  assume a: "n \<le> length (concat (incoming w))"
  from recvall_loop_complete[of 0 n "replicate n 0" w] a
  show "\<exists>w'. recvall n w = (Inr (take n (concat (incoming w))), w')
           \<and> concat (incoming w') = drop n (concat (incoming w))"
    by (auto simp: recvall_def)
next
  assume "length (concat (incoming w)) < n"
  with recvall_loop_eof[of w n 0 "replicate n 0"]
  show "\<exists>w'. recvall n w = (Inl (EOFError n (length (concat (incoming w)))), w')"
    by (auto simp: recvall_def)
next
  fix buf w'
  assume "recvall n w = (Inr buf, w')"
  then show "length buf = n"
    using recvall_loop_length[of n 0 "replicate n 0" w buf w'] by (simp add: recvall_def)
qed

theorem recvall_exact_witness:
  "(\<exists>w'. recvall 5 (peer [[1, 2], [3], [4, 5, 6]]) = (Inr [1, 2, 3, 4, 5], w')
        \<and> concat (incoming w') = [6])
   \<and> (\<exists>w'. recvall 5 (peer [[1, 2], [3]]) = (Inl (EOFError 5 3), w'))"
  using recvall_exact[where w = "peer [[1, 2], [3], [4, 5, 6]]" and n = 5]
    recvall_exact[where w = "peer [[1, 2], [3]]" and n = 5]
  by (simp add: peer_def numeral_3_eq_3)

text \<open>
  Claim C4 says that the request line for \<open>db = 3\<close>, \<open>ranges = [(10, 20), (30, 40)]\<close> and
  an empty option string is exactly \<^verbatim>\<open>@--seqdb 3 --seqdb_ranges 10..20,30..40\n\<close>. The format
  string \<^verbatim>\<open>"--seqdb_ranges {} {}"\<close> puts a space between the ranges and the options also
  when the options are empty, so the line sent is not the claimed one:
\<close>

theorem request_line_as_claimed_counterexample:
  "encode_ascii (request_line p7_SEARCH_SEQS 3
       (Some [PyTuple [PyInt 10, PyInt 20], PyTuple [PyInt 30, PyInt 40]]) '''')
     \<noteq> Inr (map of_char ''@--seqdb 3 --seqdb_ranges 10..20,30..40\<newline>'')"
  by (simp add: request_line_def format_range_def str_int_def digit_def encode_ascii_def)

text \<open>
  Claim C4, as the code has it: the line is \<^verbatim>\<open>@--seqdb 3 --seqdb_ranges 10..20,30..40 \n\<close>,
  with one space between the last range and the newline.
\<close>

theorem request_line_example:
  "encode_ascii (request_line p7_SEARCH_SEQS 3
       (Some [PyTuple [PyInt 10, PyInt 20], PyTuple [PyInt 30, PyInt 40]]) '''')
     = Inr (map of_char ''@--seqdb 3 --seqdb_ranges 10..20,30..40 \<newline>'')"
  by (simp add: request_line_def format_range_def str_int_def digit_def encode_ascii_def)

text \<open>
  Claim C5 says that on an error status the client receives exactly the declared number
  of message bytes. The code calls \<^verbatim>\<open>socket.recv(msg_size)\<close> once, where the payload path
  calls \<^verbatim>\<open>_recvall(msg_size)\<close>: it takes what the first receive delivers. Here the header
  announces status 3 and a message of four bytes, which arrives in two fragments of two
  bytes: the \<open>ServerError\<close> carries the first two bytes only and the other two stay in the
  stream.
\<close>

theorem server_error_message_short_read:
  "client mini_libs mini_query 1 (Some [PyTuple [PyInt 1, PyInt 2]]) mini_pli p7_SEARCH_SEQS
     (peer [[3, 4], [104, 105], [33, 33]])
    = (Inl (ServerError 3 [104, 105]),
       \<lparr>sent = [map of_char ''@--seqdb 1 --seqdb_ranges 1..2 \<newline>'', [81], map of_char ''//''],
        incoming = [[33, 33]], warnings = []\<rparr>)"
  by (simp add: mini_defs run_defs Let_def)

text \<open>
  Claim C6: every hit list returned by \<^verbatim>\<open>_client\<close>, and so by every search or scan method,
  is flagged sorted by key and not sorted by target index.
\<close>

theorem returned_hits_sorted_by_key:
  assumes "client env query db ranges pli mode w = (Inr hits, w')"
  shows "th_is_sorted_by_sortkey (TopHits_th hits) \<and> \<not> th_is_sorted_by_seqidx (TopHits_th hits)"
proof -
  from client_Inr[OF assms] obtain payload w3 where
    "decode_response env pli mode (TopHits_new env) payload w3 = (Inr hits, w')" by blast
  from decode_response_Inr[OF this] obtain stats U H hs where
    "TopHits_th hits = (TopHits_th (copy_stats mode pli stats (TopHits_new env)))
                \<lparr>th_unsrt := hs @ drop (unat (stats_nhits stats)) U,
                 th_hit := [0..<unat (stats_nhits stats)] @ drop (unat (stats_nhits stats)) H\<rparr>"
    by blast
  then show ?thesis by (simp add: copy_stats_th)
qed

theorem returned_hits_sorted_by_key_witness:
  "client mini_libs mini_query 1 (Some [PyTuple [PyInt 1, PyInt 2]]) mini_pli p7_SEARCH_SEQS
     (peer [[0, 5], [2, 0, 5], [7, 9]])
    = (Inr mini_result,
       \<lparr>sent = [map of_char ''@--seqdb 1 --seqdb_ranges 1..2 \<newline>'', [81], map of_char ''//''],
        incoming = [], warnings = [HitOffsetWarning 1 5 1]\<rparr>)
   \<and> th_is_sorted_by_sortkey (TopHits_th mini_result)
   \<and> \<not> th_is_sorted_by_seqidx (TopHits_th mini_result)"
  using mini_run returned_hits_sorted_by_key[OF mini_run]
  by simp

text \<open>
  Claim C7: once the statistics block is decoded and the arrays are resized, the warnings
  emitted while decoding are exactly those called for by the offset table along the
  decoder's own cursors, one for each record reached whose offset differs from its entry;
  and the outcome of the decoding (the hit list, or the error of a refused record) is the
  same whatever the offset table \<open>t'\<close> is: a mismatch raises nothing and stops nothing.
\<close>

theorem offset_mismatch_not_fatal:
  assumes "p7_hmmd_search_stats_Deserialize env response 0 = (eslOK, off, stats)"
    and "reallocate env (stats_nhits stats) (TopHits_th (copy_stats mode pli stats hits0)) = Inr th"
  shows "warnings (snd (decode_response env pli mode hits0 response w)) =
           warnings w @ mismatch_warnings off (stats_hit_offsets stats) 0
             (hit_cursors env response off (take (unat (stats_nhits stats)) (th_unsrt th)))
       \<and> fst (decode_response env pli mode hits0 response w) =
           map_sum id (\<lambda>(off', th'). (copy_stats mode pli stats hits0)\<lparr>TopHits_th := th'\<rparr>)
             (fst (deserialize_hits env response off t' (unat (stats_nhits stats)) 0 off th w'))"
proof -
  let ?n = "unat (stats_nhits stats)"
  from reallocate_Inr[OF assms(2)] have l: "?n \<le> length (th_unsrt th)" by auto
  obtain r w1 where loop:
    "deserialize_hits env response off (stats_hit_offsets stats) ?n 0 off th w = (r, w1)"
    by force
  note eq = decode_response_loop[OF assms loop]
  have a: "snd (decode_response env pli mode hits0 response w) =
           snd (deserialize_hits env response off (stats_hit_offsets stats) ?n 0 off th w)"
    by (simp only: eq loop snd_conv)
  have b: "fst (decode_response env pli mode hits0 response w) =
           map_sum id (\<lambda>(off', th'). (copy_stats mode pli stats hits0)\<lparr>TopHits_th := th'\<rparr>)
             (fst (deserialize_hits env response off (stats_hit_offsets stats) ?n 0 off th w))"
    by (simp only: eq loop fst_conv)
  from deserialize_hits_warnings[OF l, of 0 env response off "stats_hit_offsets stats" off w] a
  have "warnings (snd (decode_response env pli mode hits0 response w)) =
           warnings w @ mismatch_warnings off (stats_hit_offsets stats) 0
             (hit_cursors env response off (take ?n (th_unsrt th)))"
    by simp
  moreover from b deserialize_hits_outcome[of env response off "stats_hit_offsets stats" ?n 0 off th w t' w']
  have "fst (decode_response env pli mode hits0 response w) =
           map_sum id (\<lambda>(off', th'). (copy_stats mode pli stats hits0)\<lparr>TopHits_th := th'\<rparr>)
             (fst (deserialize_hits env response off t' ?n 0 off th w'))"
    by simp
  ultimately show ?thesis by simp
qed

theorem offset_mismatch_not_fatal_witness:
  "p7_hmmd_search_stats_Deserialize mini_libs [2, 0, 5, 7, 9] 0 = (eslOK, 3, mini_block)
   \<and> reallocate mini_libs (stats_nhits mini_block)
       (TopHits_th (copy_stats p7_SEARCH_SEQS mini_pli mini_block (TopHits_new mini_libs)))
       = Inr mini_cells
   \<and> stats_hit_offsets mini_block 1 = 5
   \<and> hit_cursors mini_libs [2, 0, 5, 7, 9] 3 (th_unsrt mini_cells) = [3, 4]
   \<and> warnings (snd (decode_response mini_libs mini_pli p7_SEARCH_SEQS (TopHits_new mini_libs)
        [2, 0, 5, 7, 9] (peer []))) = [HitOffsetWarning 1 5 1]
   \<and> fst (decode_response mini_libs mini_pli p7_SEARCH_SEQS (TopHits_new mini_libs)
        [2, 0, 5, 7, 9] (peer [])) = Inr mini_result"
proof -
  have c: "hit_cursors mini_libs [2, 0, 5, 7, 9] 3 (th_unsrt mini_cells) = [3, 4]"
    by (simp add: mini_cells_def mini_libs_def mini_hit_def mini_cell_def clear_pointers_def
          eslOK_def)
  from offset_mismatch_not_fatal[OF mini_block_run mini_cells_run, of "peer []"]
  have "warnings (snd (decode_response mini_libs mini_pli p7_SEARCH_SEQS (TopHits_new mini_libs)
        [2, 0, 5, 7, 9] (peer []))) =
        warnings (peer []) @ mismatch_warnings 3 (stats_hit_offsets mini_block) 0
          (hit_cursors mini_libs [2, 0, 5, 7, 9] 3 (take (unat (stats_nhits mini_block))
             (th_unsrt mini_cells)))"
    by simp
  also have "take (unat (stats_nhits mini_block)) (th_unsrt mini_cells) = th_unsrt mini_cells"
    by (simp add: mini_block_fields mini_cells_def)
  finally have w: "warnings (snd (decode_response mini_libs mini_pli p7_SEARCH_SEQS
        (TopHits_new mini_libs) [2, 0, 5, 7, 9] (peer []))) = [HitOffsetWarning 1 5 1]"
    by (simp add: c mini_block_fields peer_def)
  from mini_decode have "fst (decode_response mini_libs mini_pli p7_SEARCH_SEQS
        (TopHits_new mini_libs) [2, 0, 5, 7, 9] (peer [])) = Inr mini_result" by simp
  then show ?thesis
    using w c mini_block_run mini_cells_run mini_block_fields(3) by (intro conjI)
qed

text \<open>
  Claim C8: a sequence-database search with \<open>ranges = []\<close> raises \<open>ValueError\<close> and the
  world is the one before the call: nothing has been sent on the socket.
\<close>

theorem empty_ranges_rejected_before_send:
  "search_seq env query db (Some []) pli w =
     (Inl (ValueError ''At least one range is needed for the `ranges` argument''), w)
   \<and> search_msa env query db (Some []) pli w =
     (Inl (ValueError ''At least one range is needed for the `ranges` argument''), w)
   \<and> search_hmm env query db (Some []) pli w =
     (Inl (ValueError ''At least one range is needed for the `ranges` argument''), w)"
  by (simp add: search_seq_def search_msa_def search_hmm_def client_def check_ranges_def)

text \<open>
  The layout of the request on the calls that reach the sends: when \<open>ranges\<close> passes the
  validation and the request line is ASCII, the client makes exactly three sends,
  whatever the server answers: the request line, the serialization of the query, and the
  two bytes \<^verbatim>\<open>//\<close>. A call that sends anything sends exactly these.
\<close>

lemma request_layout:
  "(check_ranges ranges = Inr () \<and>
    encode_ascii (request_line mode db ranges (concat (arguments pli))) = Inr line \<longrightarrow>
      sent (snd (client env query db ranges pli mode w)) =
        sent w @ [line, query_write query, map of_char ''//''])
   \<and> (sent (snd (client env query db ranges pli mode w)) = sent w
      \<or> (\<exists>line. encode_ascii (request_line mode db ranges (concat (arguments pli))) = Inr line
            \<and> sent (snd (client env query db ranges pli mode w)) =
                sent w @ [line, query_write query, map of_char ''//'']))"
proof -
  have a: "sent (snd (client env query db ranges pli mode w)) =
        sent w @ [line, query_write query, map of_char ''//'']"
    if "check_ranges ranges = Inr ()"
      and "encode_ascii (request_line mode db ranges (concat (arguments pli))) = Inr line"
    for line
    using that by (simp add: client_def Let_def receive_response_sent sendall_def)
  show ?thesis
  proof (cases "check_ranges ranges")
    case (Inl e)
    then have "client env query db ranges pli mode w = (Inl e, w)"
      by (simp add: client_def Let_def)
    with Inl show ?thesis by simp
  next
    case (Inr u)
    show ?thesis
    proof (cases "encode_ascii (request_line mode db ranges (concat (arguments pli)))")
      case (Inl e)
      with Inr have "client env query db ranges pli mode w = (Inl e, w)"
        by (simp add: client_def Let_def)
      with Inl show ?thesis by simp
    next
      case r: (Inr l)
      from a[OF _ r] Inr r show ?thesis by auto
    qed
  qed
qed

lemma request_layout_run:
  "check_ranges (Some [PyTuple [PyInt 1, PyInt 2]]) = Inr ()
   \<and> encode_ascii (request_line p7_SEARCH_SEQS 1 (Some [PyTuple [PyInt 1, PyInt 2]])
       (concat (arguments mini_pli))) = Inr (map of_char ''@--seqdb 1 --seqdb_ranges 1..2 \<newline>'')
   \<and> sent (snd (client mini_libs mini_query 1 (Some [PyTuple [PyInt 1, PyInt 2]]) mini_pli
         p7_SEARCH_SEQS (peer [[0, 5], [2, 0, 5], [7, 9]])))
       = [map of_char ''@--seqdb 1 --seqdb_ranges 1..2 \<newline>'', [81], map of_char ''//'']"
  using mini_request
    request_layout[where ranges = "Some [PyTuple [PyInt 1, PyInt 2]]" and mode = p7_SEARCH_SEQS
      and db = 1 and pli = mini_pli and env = mini_libs and query = mini_query
      and w = "peer [[0, 5], [2, 0, 5], [7, 9]]"
      and line = "map of_char ''@--seqdb 1 --seqdb_ranges 1..2 \<newline>''"]
  by (simp add: peer_def mini_query_def)

text \<open>
  Claim C9 says that every search or scan call sends the request line, then the
  serialization of the query, then the two bytes \<^verbatim>\<open>//\<close>. The code has the three sends
  (lines 217--221), and for a scan of database 1 without options the line it would send
  is \<^verbatim>\<open>@--hmmdb 1 \n\<close>; but \<^verbatim>\<open>scan_seq\<close> passes \<open>ranges = None\<close>, which the validation before
  the sends turns into a \<open>TypeError\<close>: no scan call, and no search call that leaves
  \<open>ranges\<close> at its default, sends anything at all.
\<close>

theorem scan_seq_sends_no_request:
  "encode_ascii (request_line p7_SCAN_MODELS 1 None (concat (arguments mini_pli)))
     = Inr (map of_char ''@--hmmdb 1 \<newline>'')
   \<and> sent (snd (scan_seq env query db pli w)) = sent w
   \<and> sent (snd (scan_seq env query db pli w))
       \<noteq> sent w @ [line, query_write query, map of_char ''//'']
   \<and> sent (snd (search_seq env query db None pli w)) = sent w
   \<and> sent (snd (search_msa env query db None pli w)) = sent w
   \<and> sent (snd (search_hmm env query db None pli w)) = sent w"
  by (simp add: scan_seq_def search_seq_def search_msa_def search_hmm_def client_def
        check_ranges_def request_line_def encode_ascii_def digit_def mini_pli_def)

text \<open>
  Claim C10: after a successful decode, for every \<open>i < N\<close> the \<open>i\<close>-th pointer of the sorted
  view points at the \<open>i\<close>-th cell of the storage, so that reading the hit list through its
  pointers gives the records in the order in which they were decoded from the payload.
\<close>

theorem sorted_view_in_transmission_order:
  assumes "decode_response env pli mode hits0 response w = (Inr hits, w')"
  shows "(\<forall>i < unat (th_N (TopHits_th hits)).
            i < length (th_hit (TopHits_th hits)) \<and> i < length (th_unsrt (TopHits_th hits))
          \<and> th_hit (TopHits_th hits) ! i = i)
       \<and> sorted_view (TopHits_th hits) = hit_records (TopHits_th hits)
       \<and> (\<exists>off cells off'.
            decode_records env response off cells = Some (sorted_view (TopHits_th hits), off'))"
proof -
  from decode_response_Inr[OF assms] obtain off stats U H hs off' where
    lU: "unat (stats_nhits stats) \<le> length U"
    and d: "decode_records env response off (take (unat (stats_nhits stats)) U) = Some (hs, off')"
    and th: "TopHits_th hits = (TopHits_th (copy_stats mode pli stats hits0))
                \<lparr>th_unsrt := hs @ drop (unat (stats_nhits stats)) U,
                 th_hit := [0..<unat (stats_nhits stats)] @ drop (unat (stats_nhits stats)) H\<rparr>"
    by blast
  let ?n = "unat (stats_nhits stats)"
  from decode_records_length[OF d] lU have lh: "length hs = ?n" by simp
  from th have N: "th_N (TopHits_th hits) = stats_nhits stats" by (simp add: copy_stats_th)
  from th have Hq: "th_hit (TopHits_th hits) = [0..<?n] @ drop ?n H"
    and Uq: "th_unsrt (TopHits_th hits) = hs @ drop ?n U" by simp_all
  have p: "\<forall>i < ?n. i < length (th_hit (TopHits_th hits)) \<and> i < length (th_unsrt (TopHits_th hits))
          \<and> th_hit (TopHits_th hits) ! i = i"
    using Hq Uq lh by (simp add: nth_append)
  have "map (\<lambda>p. (hs @ drop ?n U) ! p) [0..<length hs] = hs"
    by (rule nth_equalityI) (simp_all add: nth_append)
  then have sv: "sorted_view (TopHits_th hits) = hs"
    using Hq Uq N lh by (simp add: sorted_view_def)
  have hr: "hit_records (TopHits_th hits) = hs"
    using Uq N lh by (simp add: hit_records_def)
  from d sv have "\<exists>off cells off'.
      decode_records env response off cells = Some (sorted_view (TopHits_th hits), off')"
    by blast
  with p N sv hr show ?thesis by simp
qed

theorem sorted_view_in_transmission_order_witness:
  "decode_response mini_libs mini_pli p7_SEARCH_SEQS (TopHits_new mini_libs) [2, 0, 5, 7, 9] (peer [])
     = (Inr mini_result, \<lparr>sent = [], incoming = [], warnings = [HitOffsetWarning 1 5 1]\<rparr>)
   \<and> th_hit (TopHits_th mini_result) ! 0 = 0
   \<and> th_hit (TopHits_th mini_result) ! 1 = 1
   \<and> sorted_view (TopHits_th mini_result) = hit_records (TopHits_th mini_result)"
  using mini_decode sorted_view_in_transmission_order[OF mini_decode]
  by (simp add: mini_result_def)

end
